theory Spec2Isabelle
  imports Complex_Main
begin

section \<open>Values, errors and tensors\<close>

text \<open>
  The utilities of \<^verbatim>\<open>utilities.py\<close> are embedded as HOL functions. Every Python
  exception is a value of type \<open>error\<close>; a function that can raise returns
  \<open>error + 'a\<close> with \<open>Inl\<close> for the exception.

  Tensor elements given by the caller are finite numbers, modelled as \<open>real\<close>. A
  computed element is an \<open>fval\<close>: a finite number or \<open>NaN\<close>, the result of the
  division \<open>0 / 0\<close>, which the framework does not raise on. \<open>NaN\<close> propagates through
  arithmetic. The arithmetic of these definitions is exact. The framework computes in IEEE
  floating point; where a property depends on the rounding (which token is nearest to an
  embedding, and at what distance), the distances the framework computes are the exact
  ones passed through an explicit rounding, see \<open>get_closest_tokens_fl\<close>.

  A tensor is a nested list, outermost dimension first. An embedding tensor is
  batch \<times> sequence \<times> dimension, a vocabulary matrix is vocabulary \<times> dimension. A gradient
  tensor is used by the code only through elementwise operations and full reductions and
  is modelled as a 1-D tensor.
\<close>

datatype error = AssertionError | ZeroDivisionError | IndexError | RuntimeError | TypeError

datatype fval = Fin real | NaN

type_synonym vec = "real list"
type_synonym matrix = "real list list"
type_synonym tensor3 = "real list list list"
type_synonym dist_tensor = "fval list list list"

fun fadd :: "fval \<Rightarrow> fval \<Rightarrow> fval" where
  "fadd (Fin a) (Fin b) = Fin (a + b)"
| "fadd _ _ = NaN"

fun fmul :: "fval \<Rightarrow> fval \<Rightarrow> fval" where
  "fmul (Fin a) (Fin b) = Fin (a * b)"
| "fmul _ _ = NaN"

fun fneg :: "fval \<Rightarrow> fval" where
  "fneg (Fin a) = Fin (- a)"
| "fneg NaN = NaN"

text \<open>
  \<open>ratio a b\<close> is the tensor division \<open>a / b\<close> at the places where the code divides by
  a product of two norms. There a zero divisor means that one operand is the zero vector,
  so the dividend is zero as well (lemma \<open>dot_zero_norm\<close> below) and the IEEE result is
  \<open>NaN\<close>.
\<close>

definition ratio :: "real \<Rightarrow> real \<Rightarrow> fval" where
  "ratio a b = (if b = 0 then NaN else Fin (a / b))"

text \<open>Division of a computed value by a non-zero count.\<close>

fun fdiv_count :: "fval \<Rightarrow> nat \<Rightarrow> fval" where
  "fdiv_count (Fin a) n = Fin (a / real n)"
| "fdiv_count NaN n = NaN"

definition dot :: "vec \<Rightarrow> vec \<Rightarrow> real" where
  "dot a b = sum_list (map2 (*) a b)"

definition sumsq :: "vec \<Rightarrow> real" where
  "sumsq a = sum_list (map (\<lambda>x. x * x) a)"

definition norm_p2 :: "vec \<Rightarrow> real" where
  "norm_p2 a = sqrt (sumsq a)"

text \<open>
  Python indexing of a dimension of size \<open>n\<close> by an integer: a negative index counts
  from the end, an index outside \<open>[-n, n)\<close> raises.
\<close>

definition py_index :: "nat \<Rightarrow> int \<Rightarrow> error + nat" where
  "py_index n i =
     (if 0 \<le> i \<and> i < int n then Inr (nat i)
      else if - int n \<le> i \<and> i < 0 then Inr (nat (int n + i))
      else Inl IndexError)"

section \<open>Gradient distance: \<open>grad_dist\<close>\<close>

text \<open>
  The configuration object \<open>args\<close> with the two fields the code reads.
\<close>

record args =
  loss :: string
  tag_factor :: real

text \<open>
  An elementwise binary operation on two 1-D tensors, with the framework's broadcasting:
  equal sizes, or one operand of size 1; any other pair of sizes raises.
\<close>

definition broadcast2 :: "(real \<Rightarrow> real \<Rightarrow> real) \<Rightarrow> vec \<Rightarrow> vec \<Rightarrow> error + vec" where
  "broadcast2 f a b =
     (if length a = length b then Inr (map2 f a b)
      else if length a = 1 then Inr (map (f (hd a)) b)
      else if length b = 1 then Inr (map (\<lambda>x. f x (hd b)) a)
      else Inl RuntimeError)"

text \<open>
  The body of the loop for one pair whose two sides are present: the summand of the metric
  selected by \<open>args.loss\<close>, \<open>assert False\<close> for any other name.
\<close>

definition grad_term :: "args \<Rightarrow> vec \<Rightarrow> vec \<Rightarrow> error + fval" where
  "grad_term a g1 g2 =
     (if loss a = ''cos'' then
        (case broadcast2 (*) g1 g2 of
           Inl e \<Rightarrow> Inl e
         | Inr p \<Rightarrow> Inr (fadd (Fin 1) (fneg (ratio (sum_list p) (norm_p2 g1 * norm_p2 g2)))))
      else if loss a = ''dlg'' then
        (case broadcast2 (-) g1 g2 of
           Inl e \<Rightarrow> Inl e
         | Inr d \<Rightarrow> Inr (Fin (sumsq d)))
      else if loss a = ''tag'' then
        (case broadcast2 (-) g1 g2 of
           Inl e \<Rightarrow> Inl e
         | Inr d \<Rightarrow> Inr (Fin (sumsq d + tag_factor a * sum_list (map abs d))))
      else Inl AssertionError)"

text \<open>
  The loop over \<open>zip(grads1, grads2)\<close>, threading \<open>ret\<close> and \<open>n_g\<close>. A pair with an
  absent side is skipped without looking at the metric name.
\<close>

fun grad_loop :: "args \<Rightarrow> (vec option \<times> vec option) list \<Rightarrow> fval \<Rightarrow> nat \<Rightarrow> error + (fval \<times> nat)" where
  "grad_loop a [] ret n_g = Inr (ret, n_g)"
| "grad_loop a ((Some g1, Some g2) # ps) ret n_g =
     (case grad_term a g1 g2 of
        Inl e \<Rightarrow> Inl e
      | Inr t \<Rightarrow> grad_loop a ps (fadd ret t) (Suc n_g))"
| "grad_loop a (_ # ps) ret n_g = grad_loop a ps ret n_g"

text \<open>
  After the loop the cosine metric divides by \<open>n_g\<close>. When \<open>n_g\<close> is 0 no pair was
  added, \<open>ret\<close> is still the Python float \<open>0.0\<close>, and dividing it by the integer 0
  raises \<open>ZeroDivisionError\<close>.
\<close>

definition grad_dist :: "vec option list \<Rightarrow> vec option list \<Rightarrow> args \<Rightarrow> error + fval" where
  "grad_dist grads1 grads2 a =
     (case grad_loop a (zip grads1 grads2) (Fin 0) 0 of
        Inl e \<Rightarrow> Inl e
      | Inr (ret, n_g) \<Rightarrow>
          if loss a = ''cos'' then
            (if n_g = 0 then Inl ZeroDivisionError else Inr (fdiv_count ret n_g))
          else Inr ret)"

section \<open>Nearest-token search: \<open>get_closest_tokens\<close>\<close>

text \<open>
  The shapes are those of the docstring: \<open>inputs_embeds\<close> and \<open>grads\<close> are
  batch \<times> sequence \<times> dimension, \<open>embeddings_weight\<close> is vocabulary \<times> dimension. The
  framework's distance and product operations raise when the embedding dimensions of
  their operands differ. (Tensors are rectangular; the size of an inner dimension of a
  tensor with no element is not represented by a nested list. Broadcasting of an
  embedding dimension of size 1 against a larger one, and of a gradient tensor whose shape
  differs from the one of \<open>inputs_embeds\<close>, is not represented: the model raises there.)
\<close>

definition same_dim :: "tensor3 \<Rightarrow> matrix \<Rightarrow> bool" where
  "same_dim x w = list_all (list_all (\<lambda>e. list_all (\<lambda>v. length e = length v) w)) x"

definition seq_len :: "'a list list \<Rightarrow> nat" where
  "seq_len x = (case x of [] \<Rightarrow> 0 | s # _ \<Rightarrow> length s)"

text \<open>
  \<open>torch.cdist(..., p=2)\<close> for one position: the Euclidean distance to every vocabulary
  row, in exact arithmetic.
\<close>

definition cdist_row :: "matrix \<Rightarrow> vec \<Rightarrow> fval list" where
  "cdist_row w e = map (\<lambda>v. Fin (norm_p2 (map2 (-) e v))) w"

text \<open>The cosine branch for one position: \<open>-dp / (norm1 * norm2)\<close>, in exact arithmetic.\<close>

definition cos_row :: "matrix \<Rightarrow> vec \<Rightarrow> fval list" where
  "cos_row w e = map (\<lambda>v. ratio (- dot e v) (norm_p2 e * norm_p2 v)) w"

text \<open>
  The gradient-alignment branch for one position with embedding \<open>e\<close> and gradient \<open>g\<close>:
  each direction \<open>v - e\<close> and the negated gradient are divided by their norm plus
  \<open>1e-8\<close>, and the negated inner product is the distance.
\<close>

definition eps :: real where
  "eps = 1 / 10 ^ 8"

definition align_row :: "matrix \<Rightarrow> vec \<Rightarrow> vec \<Rightarrow> fval list" where
  "align_row cands e g =
     map (\<lambda>v. let dir = map2 (-) v e;
                 normalized_direction = map (\<lambda>z. z / (norm_p2 dir + eps)) dir;
                 normalized_grad = map (\<lambda>z. - z / (norm_p2 g + eps)) g
             in Fin (- dot normalized_direction normalized_grad)) cands"

text \<open>
  In the gradient-alignment branch the repeated vocabulary, of shape (B, V, D), is
  subtracted from \<open>inputs_embeds.unsqueeze(2)\<close>, of shape (B, S, 1, D). Broadcasting
  aligns B with S: the subtraction raises unless B = 1, B = S or S = 1. For B = 1 or B = S
  the result holds, per position, the directions to the V vocabulary rows. For S = 1
  (and B > 1) the result has shape (B, B, V, D) and the following \<open>view\<close> makes it
  (B, 1, B * V, D): per position the V directions repeated B times. The \<open>view\<close> with an
  inferred size raises on a tensor without elements.
\<close>

definition align_cands :: "tensor3 \<Rightarrow> matrix \<Rightarrow> error + matrix" where
  "align_cands x w =
     (let B = length x; S = seq_len x in
      if B = 0 \<or> S = 0 \<or> w = [] \<or> seq_len w = 0 then Inl RuntimeError
      else if B = 1 \<or> B = S then Inr w
      else if S = 1 then Inr (concat (replicate B w))
      else Inl RuntimeError)"

text \<open>
  The \<open>if\<close>/\<open>elif\<close> chain on \<open>metric\<close>: the distance tensor before exclusion, with
  the size of its last dimension.
\<close>

definition distances :: "tensor3 \<Rightarrow> matrix \<Rightarrow> tensor3 option \<Rightarrow> string \<Rightarrow> error + (nat \<times> dist_tensor)" where
  "distances x w grads metric =
     (if metric = ''l2'' then
        (if same_dim x w then Inr (length w, map (map (cdist_row w)) x) else Inl RuntimeError)
      else if metric = ''cos'' then
        (if same_dim x w then Inr (length w, map (map (cos_row w)) x) else Inl RuntimeError)
      else if metric = ''grad_align'' \<and> grads \<noteq> None then
        (if \<not> same_dim x w \<or> map (map length) (the grads) \<noteq> map (map length) x
         then Inl RuntimeError
         else case align_cands x w of
                Inl e \<Rightarrow> Inl e
              | Inr cands \<Rightarrow>
                  Inr (length cands,
                       map2 (\<lambda>xs gs. map2 (align_row cands) xs gs) x (the grads)))
      else Inl AssertionError)"

text \<open>
  \<open>d[:, :, unused_tokens] = 1e9\<close>: the ids index the last dimension with Python's rule
  for negative and out-of-range indices; every listed entry of every row is overwritten.
\<close>

definition sentinel :: real where
  "sentinel = 10 ^ 9"

fun norm_ids :: "nat \<Rightarrow> int list \<Rightarrow> error + nat list" where
  "norm_ids n [] = Inr []"
| "norm_ids n (i # is) =
     (case py_index n i of
        Inl e \<Rightarrow> Inl e
      | Inr k \<Rightarrow> (case norm_ids n is of Inl e \<Rightarrow> Inl e | Inr ks \<Rightarrow> Inr (k # ks)))"

definition exclude_row :: "nat list \<Rightarrow> fval list \<Rightarrow> fval list" where
  "exclude_row ids row = fold (\<lambda>i r. r[i := Fin sentinel]) ids row"

text \<open>
  \<open>d.min(dim=2)\<close> for one row, as the framework's reduction scans it: the running
  minimum is replaced by an element that is not \<open>\<ge>\<close> it, and the scan stops at a
  \<open>NaN\<close>. Hence the first \<open>NaN\<close> if there is one, else the first minimal element.
  Comparisons with \<open>NaN\<close> are false. The reduction raises on a dimension of size 0.
\<close>

fun fge :: "fval \<Rightarrow> fval \<Rightarrow> bool" where
  "fge (Fin a) (Fin b) = (b \<le> a)"
| "fge _ _ = False"

fun min_scan :: "fval list \<Rightarrow> nat \<Rightarrow> fval \<Rightarrow> nat \<Rightarrow> fval \<times> nat" where
  "min_scan [] i m k = (m, k)"
| "min_scan (v # vs) i m k =
     (if fge v m then min_scan vs (Suc i) m k
      else if v = NaN then (v, i)
      else min_scan vs (Suc i) v i)"

definition min_row :: "fval list \<Rightarrow> fval \<times> nat" where
  "min_row row = min_scan row 0 (hd row) 0"

definition get_closest_tokens ::
  "tensor3 \<Rightarrow> int list \<Rightarrow> matrix \<Rightarrow> tensor3 option \<Rightarrow> string \<Rightarrow> error + (dist_tensor \<times> nat list list)" where
  "get_closest_tokens inputs_embeds unused_tokens embeddings_weight grads metric =
     (case distances inputs_embeds embeddings_weight grads metric of
        Inl e \<Rightarrow> Inl e
      | Inr (V, d0) \<Rightarrow>
          (case norm_ids V unused_tokens of
             Inl e \<Rightarrow> Inl e
           | Inr ids \<Rightarrow>
               let d = map (map (exclude_row ids)) d0 in
               if V = 0 then Inl IndexError
               else Inr (d, map (map (\<lambda>row. snd (min_row row))) d)))"

section \<open>Boundary fix-up and padding removal\<close>

text \<open>
  The token ids \<open>BERT_CLS_TOKEN\<close>, \<open>BERT_SEP_TOKEN\<close> and \<open>BERT_PAD_TOKEN\<close> are imported
  from the module \<open>constants\<close>; they are parameters of the model.
\<close>

record constants =
  BERT_CLS_TOKEN :: int
  BERT_SEP_TOKEN :: int
  BERT_PAD_TOKEN :: int

definition bind_err :: "error + 'a \<Rightarrow> ('a \<Rightarrow> error + 'b) \<Rightarrow> error + 'b" where
  "bind_err r f = (case r of Inl e \<Rightarrow> Inl e | Inr v \<Rightarrow> f v)"

fun map_err :: "('a \<Rightarrow> error + 'b) \<Rightarrow> 'a list \<Rightarrow> error + 'b list" where
  "map_err f [] = Inr []"
| "map_err f (x # xs) =
     (case f x of
        Inl e \<Rightarrow> Inl e
      | Inr y \<Rightarrow> (case map_err f xs of Inl e \<Rightarrow> Inl e | Inr ys \<Rightarrow> Inr (y # ys)))"

text \<open>\<open>bert_embeddings_weight[i]\<close>.\<close>

definition row_of :: "matrix \<Rightarrow> int \<Rightarrow> error + vec" where
  "row_of w i = bind_err (py_index (length w) i) (\<lambda>k. Inr (w ! k))"

text \<open>
  An embedding \<open>v\<close> assigned to a position that holds \<open>old\<close>: the sizes agree, or \<open>v\<close>
  has size 1 and is broadcast; otherwise the assignment raises.
\<close>

definition fit :: "vec \<Rightarrow> vec \<Rightarrow> error + vec" where
  "fit v old =
     (if length v = length old then Inr v
      else if length v = 1 then Inr (replicate (length old) (hd v))
      else Inl RuntimeError)"

text \<open>\<open>seq[i] = v\<close> for one sequence of the batch.\<close>

definition set_pos :: "matrix \<Rightarrow> int \<Rightarrow> vec \<Rightarrow> error + matrix" where
  "set_pos seq i v =
     bind_err (py_index (length seq) i) (\<lambda>k.
     bind_err (fit v (seq ! k)) (\<lambda>u. Inr (seq[k := u])))"

text \<open>\<open>seq[p:] = v\<close>: the start of a slice is clamped, never out of range.\<close>

definition slice_start :: "nat \<Rightarrow> int \<Rightarrow> nat" where
  "slice_start n p = (if p < 0 then nat (max 0 (int n + p)) else min n (nat p))"

definition set_from :: "matrix \<Rightarrow> int \<Rightarrow> vec \<Rightarrow> error + matrix" where
  "set_from seq p v =
     (let k = slice_start (length seq) p in
      bind_err (map_err (fit v) (drop k seq)) (\<lambda>us. Inr (take k seq @ us)))"

text \<open>
  The loop over \<open>sen_id\<close> when \<open>pads\<close> is given, on the sequences and pad boundaries that
  remain. \<open>pads[sen_id]\<close> raises when \<open>pads\<close> is shorter than the batch.
\<close>

fun pad_loop :: "constants \<Rightarrow> matrix \<Rightarrow> tensor3 \<Rightarrow> int list \<Rightarrow> error + tensor3" where
  "pad_loop c w [] pads = Inr []"
| "pad_loop c w (seq # rest) [] = Inl IndexError"
| "pad_loop c w (seq # rest) (p # pads) =
     bind_err (row_of w (BERT_PAD_TOKEN c)) (\<lambda>v_pad.
     bind_err (set_from seq p v_pad) (\<lambda>seq1.
     bind_err (row_of w (BERT_SEP_TOKEN c)) (\<lambda>v_sep.
     bind_err (set_pos seq1 (p - 1) v_sep) (\<lambda>seq2.
     bind_err (pad_loop c w rest pads) (\<lambda>rest2. Inr (seq2 # rest2))))))"

text \<open>
  \<open>fix_special_tokens\<close> writes into \<open>x_embeds\<close> and returns it; the model returns the
  tensor after the writes.
\<close>

definition fix_special_tokens :: "constants \<Rightarrow> tensor3 \<Rightarrow> matrix \<Rightarrow> int list option \<Rightarrow> error + tensor3" where
  "fix_special_tokens c x_embeds bert_embeddings_weight pads =
     bind_err (row_of bert_embeddings_weight (BERT_CLS_TOKEN c)) (\<lambda>v_cls.
     bind_err (map_err (\<lambda>seq. set_pos seq 0 v_cls) x_embeds) (\<lambda>x1.
       case pads of
         Some ps \<Rightarrow> pad_loop c bert_embeddings_weight x1 ps
       | None \<Rightarrow>
           if length x1 = 1 then
             bind_err (row_of bert_embeddings_weight (BERT_SEP_TOKEN c)) (\<lambda>v_sep.
               map_err (\<lambda>seq. set_pos seq (- 1) v_sep) x1)
           else Inr x1))"

text \<open>
  \<open>remove_padding\<close>: the loop runs \<open>i\<close> from \<open>len - 1\<close> down to 0; \<open>scan_back\<close> takes
  \<open>i + 1\<close>, the number of positions not yet visited. The tokenizer is external and a
  parameter.
\<close>

fun scan_back :: "int \<Rightarrow> int list \<Rightarrow> nat \<Rightarrow> int list" where
  "scan_back s ids 0 = ids"
| "scan_back s ids (Suc i) = (if ids ! i = s then take (Suc i) ids else scan_back s ids i)"

definition remove_padding :: "constants \<Rightarrow> (int list \<Rightarrow> string) \<Rightarrow> int list \<Rightarrow> string" where
  "remove_padding c tokenizer_decode ids =
     tokenizer_decode (scan_back (BERT_SEP_TOKEN c) ids (length ids))"

section \<open>Perplexity scoring: \<open>get_perplexity\<close>\<close>

text \<open>
  A call of \<open>get_closest_tokens\<close> with positional arguments. Its signature is
  \<open>(inputs_embeds, unused_tokens, embeddings_weight, grads=None, metric='cos')\<close>: three
  required parameters and two with defaults. Python binds the actual arguments to the
  parameters in order and raises \<open>TypeError\<close> when a required parameter gets none or when
  there are too many. Arguments of a kind the parameter is not meant for are outside the
  model and raise as well.
\<close>

datatype pyval = Tensor tensor3 | Matrix matrix | IdList "int list" | Str string | PyNone

definition call_get_closest_tokens :: "pyval list \<Rightarrow> error + (dist_tensor \<times> nat list list)" where
  "call_get_closest_tokens actuals =
     (if length actuals < 3 \<or> 5 < length actuals then Inl TypeError
      else
        let grads = (if 3 < length actuals then actuals ! 3 else PyNone);
            metric = (if 4 < length actuals then actuals ! 4 else Str ''cos'')
        in case (actuals ! 0, actuals ! 1, actuals ! 2, metric) of
             (Tensor x, IdList u, Matrix w, Str m) \<Rightarrow>
               (case grads of
                  PyNone \<Rightarrow> get_closest_tokens x u w None m
                | Tensor g \<Rightarrow> get_closest_tokens x u w (Some g) m
                | _ \<Rightarrow> Inl TypeError)
           | _ \<Rightarrow> Inl TypeError)"

definition fsum :: "fval list \<Rightarrow> fval" where
  "fsum vs = fold (\<lambda>v acc. fadd acc v) vs (Fin 0)"

definition the_fin :: "fval \<Rightarrow> real" where
  "the_fin v = (case v of Fin a \<Rightarrow> a | NaN \<Rightarrow> 0)"

text \<open>
  \<open>F.softmax(-alpha / c, dim=2)\<close> for one row. With \<open>c = 0\<close> every quotient is infinite or
  \<open>NaN\<close>, and the softmax of such a row is \<open>NaN\<close> everywhere, as it is for a row that
  holds a \<open>NaN\<close>.
\<close>

definition softmax_neg_div :: "real \<Rightarrow> fval list \<Rightarrow> fval list" where
  "softmax_neg_div c row =
     (if c = 0 \<or> NaN \<in> set row then map (\<lambda>_. NaN) row
      else let z = map (\<lambda>a. - the_fin a / c) row;
               total = sum_list (map exp z)
           in map (\<lambda>zi. Fin (exp zi / total)) z)"

definition log_softmax :: "fval list \<Rightarrow> fval list" where
  "log_softmax row =
     (if NaN \<in> set row then map (\<lambda>_. NaN) row
      else let z = map the_fin row;
               total = sum_list (map exp z)
           in map (\<lambda>zi. Fin (zi - ln total)) z)"

text \<open>
  \<open>alpha.bmm(gpt2_embeddings_weight)\<close>: per position the mixture of the rows of the
  second vocabulary's matrix; raises unless the row of weights has one entry per row of
  the matrix.
\<close>

definition mix :: "matrix \<Rightarrow> fval list \<Rightarrow> fval list" where
  "mix gw row = map (\<lambda>col. fsum (map2 (\<lambda>a g. fmul a (Fin g)) row col)) (transpose gw)"

definition bmm :: "dist_tensor \<Rightarrow> matrix list \<Rightarrow> error + dist_tensor" where
  "bmm alpha gws =
     (if list_all (\<lambda>(a, gw). list_all (\<lambda>row. length row = length gw) a) (zip alpha gws)
      then Inr (map2 (\<lambda>a gw. map (mix gw) a) alpha gws)
      else Inl RuntimeError)"

text \<open>The elementwise product of two tensors of the same shape.\<close>

definition mul3 :: "dist_tensor \<Rightarrow> dist_tensor \<Rightarrow> error + dist_tensor" where
  "mul3 p q =
     (if map (map length) p = map (map length) q
      then Inr (map2 (map2 (map2 fmul)) p q)
      else Inl RuntimeError)"

text \<open>\<open>mean\<close> over a dimension: \<open>NaN\<close> when the dimension has size 0.\<close>

definition fmean :: "fval list \<Rightarrow> fval" where
  "fmean vs = (if vs = [] then NaN else fdiv_count (fsum vs) (length vs))"

text \<open>
  The second model is external: \<open>gpt2\<close> maps the input embeddings to the logits.
  The call of \<open>get_closest_tokens\<close> passes two positional arguments, the embeddings and
  the first vocabulary's matrix.
\<close>

definition get_perplexity ::
  "(dist_tensor \<Rightarrow> dist_tensor) \<Rightarrow> tensor3 \<Rightarrow> matrix \<Rightarrow> matrix \<Rightarrow> real \<Rightarrow> error + fval" where
  "get_perplexity gpt2 x_embeds bert_embeddings_weight gpt2_embeddings_weight c =
     (let gpt2_rep = replicate (length x_embeds) gpt2_embeddings_weight in
      bind_err (call_get_closest_tokens [Tensor x_embeds, Matrix bert_embeddings_weight])
        (\<lambda>(alpha0, _).
          let alpha = map (map (softmax_neg_div c)) alpha0 in
          bind_err (bmm alpha gpt2_rep) (\<lambda>gpt2_embeds.
            let log_probs = map (map log_softmax) (gpt2 gpt2_embeds) in
            bind_err (mul3 (map butlast log_probs) (map tl alpha)) (\<lambda>prod.
              Inr (fneg (fsum (map (\<lambda>seq. fmean (map fsum seq)) prod)))))))"

section \<open>\<open>get_closest_tokens\<close> on a store of tensors\<close>

text \<open>
  To speak about the tensors a call writes to, the tensors live in a store: a list of
  objects, an address is an index, a new tensor is appended. \<open>repeat\<close>, the distance
  operations, the arithmetic, \<open>clone\<close> and \<open>min\<close> return new tensors; the indexed
  assignment \<open>d[:, :, unused_tokens] = 1e9\<close> writes into the tensor \<open>d\<close> is bound to,
  which is the clone. The store is returned also when the call raises.
\<close>

datatype obj =
  Real3 tensor3 | Real2 matrix | Dist3 dist_tensor | Dist2 "fval list list" | Ind2 "nat list list"

type_synonym heap = "obj list"

definition alloc :: "heap \<Rightarrow> obj \<Rightarrow> nat \<times> heap" where
  "alloc h v = (length h, h @ [v])"

definition write_obj :: "heap \<Rightarrow> nat \<Rightarrow> obj \<Rightarrow> heap" where
  "write_obj h a v = h[a := v]"

definition load_grads :: "heap \<Rightarrow> nat option \<Rightarrow> error + tensor3 option" where
  "load_grads h ag =
     (case ag of
        None \<Rightarrow> Inr None
      | Some a \<Rightarrow> (if a < length h then (case h ! a of Real3 g \<Rightarrow> Inr (Some g) | _ \<Rightarrow> Inl TypeError)
                   else Inl TypeError))"

definition get_closest_tokens_heap ::
  "heap \<Rightarrow> nat \<Rightarrow> int list \<Rightarrow> nat \<Rightarrow> nat option \<Rightarrow> string \<Rightarrow> heap \<times> (error + (nat \<times> nat))" where
  "get_closest_tokens_heap h inputs_embeds unused_tokens embeddings_weight grads metric =
     (if \<not> (inputs_embeds < length h \<and> embeddings_weight < length h) then (h, Inl TypeError)
      else case (h ! inputs_embeds, h ! embeddings_weight, load_grads h grads) of
        (Real3 x, Real2 w, Inr g) \<Rightarrow>
          (let (a_rep, h1) = alloc h (Real3 (replicate (length x) w)) in
           case distances x w g metric of
             Inl e \<Rightarrow> (h1, Inl e)
           | Inr (V, d0) \<Rightarrow>
               let (a_d0, h2) = alloc h1 (Dist3 d0);
                   (a_d, h3) = alloc h2 (Dist3 d0)
               in (case norm_ids V unused_tokens of
                     Inl e \<Rightarrow> (h3, Inl e)
                   | Inr ids \<Rightarrow>
                       let d = map (map (exclude_row ids)) d0;
                           h4 = write_obj h3 a_d (Dist3 d)
                       in if V = 0 then (h4, Inl IndexError)
                          else let (a_min, h5) = alloc h4 (Dist2 (map (map (\<lambda>row. fst (min_row row))) d));
                                   (a_idx, h6) = alloc h5 (Ind2 (map (map (\<lambda>row. snd (min_row row))) d))
                               in (h6, Inr (a_d, a_idx))))
      | _ \<Rightarrow> (h, Inl TypeError))"

section \<open>Rounding in the distance computation\<close>

text \<open>
  The framework evaluates the distance expressions of the metric branches in IEEE floating
  point, in an order of operations that the source does not fix. The distance tensor it
  computes is the exact one passed through \<open>rnd\<close>, the rounding of the run; the
  identity is exact arithmetic. \<open>select_tokens\<close> is the rest of the function, the
  exclusion and the minimum, on the computed distances. Nothing is assumed about
  \<open>rnd\<close> here; a statement says how close to the exact distances it stays.
\<close>

definition select_tokens ::
  "nat \<Rightarrow> int list \<Rightarrow> dist_tensor \<Rightarrow> error + (dist_tensor \<times> nat list list)" where
  "select_tokens V unused_tokens d0 =
     (case norm_ids V unused_tokens of
        Inl e \<Rightarrow> Inl e
      | Inr ids \<Rightarrow>
          let d = map (map (exclude_row ids)) d0 in
          if V = 0 then Inl IndexError
          else Inr (d, map (map (\<lambda>row. snd (min_row row))) d))"

definition get_closest_tokens_fl ::
  "(dist_tensor \<Rightarrow> dist_tensor) \<Rightarrow> tensor3 \<Rightarrow> int list \<Rightarrow> matrix \<Rightarrow> tensor3 option \<Rightarrow> string
     \<Rightarrow> error + (dist_tensor \<times> nat list list)" where
  "get_closest_tokens_fl rnd inputs_embeds unused_tokens embeddings_weight grads metric =
     (case distances inputs_embeds embeddings_weight grads metric of
        Inl e \<Rightarrow> Inl e
      | Inr (V, d0) \<Rightarrow> select_tokens V unused_tokens (rnd d0))"

section \<open>Notions used in the statements\<close>

text \<open>
  A computed distance beats the sentinel when it is not \<open>\<ge> 1e9\<close>: it is smaller, or
  \<open>NaN\<close>.
\<close>

definition beats_sentinel :: "fval \<Rightarrow> bool" where
  "beats_sentinel v = (\<not> fge v (Fin sentinel))"

text \<open>
  Token \<open>k\<close> of a vocabulary of size \<open>V\<close> is excluded by the list \<open>unused\<close> when the
  list holds \<open>k\<close>, or the negative index that Python resolves to \<open>k\<close>.
\<close>

definition is_excluded :: "nat \<Rightarrow> int list \<Rightarrow> nat \<Rightarrow> bool" where
  "is_excluded V unused k = (int k \<in> set unused \<or> int k - int V \<in> set unused)"

text \<open>
  A computed value is close to an exact one when both are finite and differ by at most the
  tolerance. The computed distances \<open>dm\<close> approximate the exact row \<open>exact\<close> at the
  position \<open>(b, s)\<close> when the position exists in \<open>dm\<close>, has one entry per token, and
  the entry of every token that is not excluded is close to the exact one.
\<close>

fun close_to :: "real \<Rightarrow> fval \<Rightarrow> fval \<Rightarrow> bool" where
  "close_to tol (Fin c) (Fin r) = (\<bar>c - r\<bar> \<le> tol)"
| "close_to tol _ _ = False"

definition approximates ::
  "real \<Rightarrow> nat \<Rightarrow> int list \<Rightarrow> dist_tensor \<Rightarrow> nat \<Rightarrow> nat \<Rightarrow> fval list \<Rightarrow> bool" where
  "approximates tol V unused dm b s exact =
     (b < length dm \<and> s < length (dm ! b) \<and> length (dm ! b ! s) = V
      \<and> (\<forall>i < V. \<not> is_excluded V unused i \<longrightarrow> close_to tol (dm ! b ! s ! i) (exact ! i)))"

section \<open>Properties of \<open>grad_dist\<close>\<close>

lemma map2_comm:
  assumes "\<And>x y. f x y = f y x"
  shows "map2 f a b = map2 f b a"
  using assms by (induction a arbitrary: b) (auto split: list.splits simp: zip_Cons1)

lemma broadcast2_comm:
  assumes "\<And>x y. f x y = f y x"
  shows "broadcast2 f a b = broadcast2 f b a"
  using map2_comm [of f a b] assms by (auto simp: broadcast2_def)

lemma sumsq_neg: "sumsq (map uminus d) = sumsq d"
  by (induction d) (auto simp: sumsq_def)

lemma sumabs_neg: "sum_list (map (abs \<circ> uminus) (d::real list)) = sum_list (map abs d)"
  by (induction d) auto

lemma broadcast2_minus_swap:
  "broadcast2 (-) b a = (case broadcast2 (-) a b of Inl e \<Rightarrow> Inl e | Inr d \<Rightarrow> Inr (map uminus d))"
proof -
  have "map2 (-) b a = map uminus (map2 (-) a (b::real list))"
    by (induction a arbitrary: b) (auto simp: zip_Cons1 split: list.splits)
  thus ?thesis by (auto simp: broadcast2_def)
qed

lemma grad_term_sym: "grad_term a g1 g2 = grad_term a g2 g1"
proof -
  have m: "broadcast2 (*) g1 g2 = broadcast2 (*) g2 g1"
    by (rule broadcast2_comm) (simp add: mult.commute)
  show ?thesis
    unfolding grad_term_def m broadcast2_minus_swap [of g2 g1]
    by (auto split: sum.splits simp: sumsq_neg sumabs_neg mult.commute)
qed

lemma grad_loop_sym:
  "grad_loop a (zip g2 g1) ret n = grad_loop a (zip g1 g2) ret n"
proof (induction g1 arbitrary: g2 ret n)
  case Nil show ?case by simp
next
  case (Cons x xs)
  show ?case
  proof (cases g2)
    case Nil thus ?thesis by simp
  next
    case (Cons y ys)
    show ?thesis
      using Cons.IH [of ys] grad_term_sym
      by (cases x; cases y) (simp_all add: Cons split: sum.splits)
  qed
qed

lemma grad_dist_sym: "grad_dist g1 g2 a = grad_dist g2 g1 a"
  by (simp add: grad_dist_def grad_loop_sym)

lemma grad_loop_absent:
  "\<forall>p \<in> set ps. fst p = None \<or> snd p = None \<Longrightarrow> grad_loop a ps ret n = Inr (ret, n)"
  by (induction a ps ret n rule: grad_loop.induct) auto

lemma grad_loop_unknown:
  "loss a \<noteq> ''cos'' \<Longrightarrow> loss a \<noteq> ''dlg'' \<Longrightarrow> loss a \<noteq> ''tag'' \<Longrightarrow>
   grad_loop a ps ret n =
     (if \<exists>p \<in> set ps. fst p \<noteq> None \<and> snd p \<noteq> None then Inl AssertionError else Inr (ret, n))"
  by (induction a ps ret n rule: grad_loop.induct) (auto simp: grad_term_def)

lemma grad_term_known:
  "loss a = ''cos'' \<or> loss a = ''dlg'' \<or> loss a = ''tag'' \<Longrightarrow> grad_term a g1 g2 \<noteq> Inl AssertionError"
  by (auto simp: grad_term_def broadcast2_def split: sum.splits if_splits)

lemma grad_loop_known:
  "loss a = ''cos'' \<or> loss a = ''dlg'' \<or> loss a = ''tag'' \<Longrightarrow> grad_loop a ps ret n \<noteq> Inl AssertionError"
proof (induction a ps ret n rule: grad_loop.induct)
  case (2 a g1 g2 ps ret n_g)
  then show ?case using grad_term_known [of a g1 g2] by (auto split: sum.splits)
qed auto

text \<open>
  Claim C6. When every pair of the two gradient collections has an absent side,
  \<open>grad_dist\<close> returns 0 for the metrics \<open>dlg\<close> and \<open>tag\<close>, and for \<open>cos\<close> the
  division by the number of present pairs, which is zero, raises a division by zero.
\<close>

theorem grad_dist_all_absent:
  assumes "\<forall>p \<in> set (zip grads1 grads2). fst p = None \<or> snd p = None"
  shows "grad_dist grads1 grads2 \<lparr>loss = ''dlg'', tag_factor = t\<rparr> = Inr (Fin 0)
       \<and> grad_dist grads1 grads2 \<lparr>loss = ''tag'', tag_factor = t\<rparr> = Inr (Fin 0)
       \<and> grad_dist grads1 grads2 \<lparr>loss = ''cos'', tag_factor = t\<rparr> = Inl ZeroDivisionError"
  using assms by (simp add: grad_dist_def grad_loop_absent)

text \<open>The theorem at two pairs, each with one absent side.\<close>

theorem grad_dist_all_absent_witness:
  "grad_dist [None, Some [1]] [Some [2], None] \<lparr>loss = ''dlg'', tag_factor = 1\<rparr> = Inr (Fin 0)
   \<and> grad_dist [None, Some [1]] [Some [2], None] \<lparr>loss = ''tag'', tag_factor = 1\<rparr> = Inr (Fin 0)
   \<and> grad_dist [None, Some [1]] [Some [2], None] \<lparr>loss = ''cos'', tag_factor = 1\<rparr> = Inl ZeroDivisionError"
  using grad_dist_all_absent [of "[None, Some [1]]" "[Some [2], None]" 1] by simp

text \<open>
  Claim C3, as amended. For equal-length gradient collections in which every element is
  present, \<open>grad_dist\<close> is symmetric under swapping the two collections for each of the
  three metrics \<open>cos\<close>, \<open>dlg\<close> and \<open>tag\<close>.
\<close>

theorem grad_dist_symmetric:
  assumes "length grads1 = length grads2"
    and "\<forall>g \<in> set grads1 \<union> set grads2. g \<noteq> None"
  shows "grad_dist grads1 grads2 \<lparr>loss = ''cos'', tag_factor = t\<rparr>
           = grad_dist grads2 grads1 \<lparr>loss = ''cos'', tag_factor = t\<rparr>
       \<and> grad_dist grads1 grads2 \<lparr>loss = ''dlg'', tag_factor = t\<rparr>
           = grad_dist grads2 grads1 \<lparr>loss = ''dlg'', tag_factor = t\<rparr>
       \<and> grad_dist grads1 grads2 \<lparr>loss = ''tag'', tag_factor = t\<rparr>
           = grad_dist grads2 grads1 \<lparr>loss = ''tag'', tag_factor = t\<rparr>"
  by (simp add: grad_dist_sym)

lemma norm_3_4: "norm_p2 [3, 4] = 5" "norm_p2 [4, 3] = 5"
proof -
  have "sqrt 25 = 5" by (rule real_sqrt_unique) simp_all
  then show "norm_p2 [3, 4] = 5" "norm_p2 [4, 3] = 5" by (simp_all add: norm_p2_def sumsq_def)
qed

text \<open>
  The cosine metric on the gradients \<open>[3, 4]\<close> and \<open>[4, 3]\<close> gives \<open>1/25\<close> in both
  orders: the metric is not asymmetric.
\<close>

theorem grad_dist_cos_symmetric_example:
  "grad_dist [Some [3, 4]] [Some [4, 3]] \<lparr>loss = ''cos'', tag_factor = 0\<rparr> = Inr (Fin (1 / 25))
   \<and> grad_dist [Some [4, 3]] [Some [3, 4]] \<lparr>loss = ''cos'', tag_factor = 0\<rparr> = Inr (Fin (1 / 25))"
  by (simp add: grad_dist_def grad_term_def broadcast2_def ratio_def norm_3_4)

text \<open>The symmetry theorem at the same pair of gradients.\<close>

theorem grad_dist_symmetric_witness:
  "length [Some [3, 4]] = length [Some [4, 3 :: real]]
   \<and> grad_dist [Some [3, 4]] [Some [4, 3]] \<lparr>loss = ''cos'', tag_factor = 2\<rparr>
       = grad_dist [Some [4, 3]] [Some [3, 4]] \<lparr>loss = ''cos'', tag_factor = 2\<rparr>
   \<and> grad_dist [Some [3, 4]] [Some [4, 3]] \<lparr>loss = ''dlg'', tag_factor = 2\<rparr>
       = grad_dist [Some [4, 3]] [Some [3, 4]] \<lparr>loss = ''dlg'', tag_factor = 2\<rparr>
   \<and> grad_dist [Some [3, 4]] [Some [4, 3]] \<lparr>loss = ''tag'', tag_factor = 2\<rparr>
       = grad_dist [Some [4, 3]] [Some [3, 4]] \<lparr>loss = ''tag'', tag_factor = 2\<rparr>"
  using grad_dist_symmetric [of "[Some [3, 4]]" "[Some [4, 3]]" 2] by simp

lemma sumsq_nonneg: "0 \<le> sumsq a"
  by (induction a) (auto simp: sumsq_def)

lemma sumsq_zero_iff: "sumsq a = 0 \<longleftrightarrow> (\<forall>x \<in> set a. x = 0)"
proof (induction a)
  case Nil show ?case by (simp add: sumsq_def)
next
  case (Cons x xs)
  have "sumsq (x # xs) = x * x + sumsq xs" by (simp add: sumsq_def)
  moreover have "0 \<le> x * x" by simp
  ultimately have "sumsq (x # xs) = 0 \<longleftrightarrow> x * x = 0 \<and> sumsq xs = 0"
    using sumsq_nonneg [of xs] by linarith
  with Cons show ?case by simp
qed

lemma norm_p2_zero_iff: "norm_p2 a = 0 \<longleftrightarrow> (\<forall>x \<in> set a. x = 0)"
  by (simp add: norm_p2_def sumsq_zero_iff)

lemma dot_zero_left: "\<forall>x \<in> set a. x = 0 \<Longrightarrow> dot a b = 0"
  by (induction a arbitrary: b) (auto simp: dot_def zip_Cons1 split: list.splits)

lemma dot_commute: "dot a b = dot b a"
  unfolding dot_def by (rule arg_cong [of _ _ sum_list], rule map2_comm) (simp add: mult.commute)

lemma dot_zero_norm: "norm_p2 a = 0 \<or> norm_p2 b = 0 \<Longrightarrow> dot a b = 0"
  using dot_zero_left [of a b] dot_zero_left [of b a] dot_commute [of a b]
  by (auto simp: norm_p2_zero_iff)

section \<open>\<open>get_perplexity\<close> raises\<close>

text \<open>
  Claim C1 describes the value \<open>get_perplexity\<close> returns. The code returns none: its
  call of \<open>get_closest_tokens\<close> passes two positional arguments where three are
  required, so every call of \<open>get_perplexity\<close> raises \<open>TypeError\<close>.
\<close>

theorem get_perplexity_raises:
  "get_perplexity gpt2 x_embeds bert_embeddings_weight gpt2_embeddings_weight c = Inl TypeError"
  by (simp add: get_perplexity_def call_get_closest_tokens_def bind_err_def)

section \<open>Assertion failures\<close>

lemma norm_ids_error: "norm_ids n is = Inl e \<Longrightarrow> e = IndexError"
  by (induction "is" arbitrary: e) (auto simp: py_index_def split: sum.splits if_splits)

lemma align_cands_error: "align_cands x w = Inl e \<Longrightarrow> e = RuntimeError"
  by (auto simp: align_cands_def Let_def split: if_splits)

lemma distances_assert:
  "distances x w g m = Inl AssertionError \<longleftrightarrow>
     (m \<noteq> ''l2'' \<and> m \<noteq> ''cos'' \<and> \<not> (m = ''grad_align'' \<and> g \<noteq> None))"
  using align_cands_error [of x w]
  by (auto simp: distances_def split: sum.splits)

lemma get_closest_tokens_assert:
  "get_closest_tokens x u w g m = Inl AssertionError \<longleftrightarrow>
     (m \<noteq> ''l2'' \<and> m \<noteq> ''cos'' \<and> \<not> (m = ''grad_align'' \<and> g \<noteq> None))"
proof (cases "distances x w g m")
  case (Inl e)
  then show ?thesis using distances_assert [of x w g m] by (simp add: get_closest_tokens_def)
next
  case (Inr r)
  obtain V d0 where r: "r = (V, d0)" by (cases r)
  have "distances x w g m \<noteq> Inl AssertionError" using Inr by simp
  moreover have "get_closest_tokens x u w g m \<noteq> Inl AssertionError"
    using Inr r norm_ids_error [of V u]
    by (auto simp: get_closest_tokens_def Let_def split: sum.splits)
  ultimately show ?thesis using distances_assert [of x w g m] by simp
qed


lemma grad_dist_assert:
  "grad_dist g1 g2 a = Inl AssertionError \<longleftrightarrow>
     (loss a \<noteq> ''cos'' \<and> loss a \<noteq> ''dlg'' \<and> loss a \<noteq> ''tag''
      \<and> (\<exists>p \<in> set (zip g1 g2). fst p \<noteq> None \<and> snd p \<noteq> None))"
proof (cases "loss a = ''cos'' \<or> loss a = ''dlg'' \<or> loss a = ''tag''")
  case True
  then show ?thesis
    using grad_loop_known [of a "zip g1 g2" "Fin 0" 0]
    by (auto simp: grad_dist_def split: sum.splits)
next
  case False
  then show ?thesis
    using grad_loop_unknown [of a "zip g1 g2" "Fin 0" 0]
    by (auto simp: grad_dist_def split: sum.splits)
qed

text \<open>
  Claim C5, as amended. \<open>grad_dist\<close> fails its assertion exactly when the metric name
  is none of \<open>cos\<close>, \<open>dlg\<close>, \<open>tag\<close> and some pair has both sides present;
  \<open>get_closest_tokens\<close> fails its assertion exactly when the metric name is neither
  \<open>l2\<close> nor \<open>cos\<close> and it is not \<open>grad_align\<close> with gradients supplied.
\<close>

theorem assertion_failures:
  "(grad_dist g1 g2 a = Inl AssertionError \<longleftrightarrow>
      (loss a \<noteq> ''cos'' \<and> loss a \<noteq> ''dlg'' \<and> loss a \<noteq> ''tag''
       \<and> (\<exists>p \<in> set (zip g1 g2). fst p \<noteq> None \<and> snd p \<noteq> None)))
   \<and> (get_closest_tokens x u w g m = Inl AssertionError \<longleftrightarrow>
      (m \<noteq> ''l2'' \<and> m \<noteq> ''cos'' \<and> \<not> (m = ''grad_align'' \<and> g \<noteq> None)))"
  using grad_dist_assert get_closest_tokens_assert by simp

text \<open>The characterisation at calls that fail the assertion and at calls that do not.\<close>

theorem assertion_failures_witness:
  "grad_dist [Some [1]] [Some [2]] \<lparr>loss = ''l1'', tag_factor = 0\<rparr> = Inl AssertionError
   \<and> grad_dist [Some [1]] [Some [2]] \<lparr>loss = ''dlg'', tag_factor = 0\<rparr> \<noteq> Inl AssertionError
   \<and> get_closest_tokens [[[1]]] [] [[1]] None ''grad_align'' = Inl AssertionError
   \<and> get_closest_tokens [[[1]]] [] [[1]] None ''dot'' = Inl AssertionError
   \<and> get_closest_tokens [[[1]]] [] [[1]] None ''l2'' \<noteq> Inl AssertionError"
  using assertion_failures [of "[Some [1]]" "[Some [2]]" "\<lparr>loss = ''l1'', tag_factor = 0\<rparr>"
      "[[[1]]]" "[]" "[[1]]" None "''grad_align''"]
    assertion_failures [of "[Some [1]]" "[Some [2]]" "\<lparr>loss = ''dlg'', tag_factor = 0\<rparr>"
      "[[[1]]]" "[]" "[[1]]" None "''dot''"]
    assertion_failures [of "[Some [1]]" "[Some [2]]" "\<lparr>loss = ''dlg'', tag_factor = 0\<rparr>"
      "[[[1]]]" "[]" "[[1]]" None "''l2''"]
  by simp

text \<open>
  With no present pair \<open>grad_dist\<close> returns 0 for an unrecognised metric name, without
  an assertion failure, and raises a division by zero for \<open>cos\<close>, a failure that is not an
  assertion failure.
\<close>

theorem grad_dist_unknown_metric_returns:
  "grad_dist [None] [Some [1]] \<lparr>loss = ''l1'', tag_factor = 0\<rparr> = Inr (Fin 0)
   \<and> grad_dist [None] [Some [1]] \<lparr>loss = ''cos'', tag_factor = 0\<rparr> = Inl ZeroDivisionError"
  by (simp add: grad_dist_def)

section \<open>Excluded tokens\<close>

lemma min_scan_index:
  "min_scan vs i m k = (m', k') \<Longrightarrow>
     (m' = m \<and> k' = k) \<or> (\<exists>j < length vs. k' = i + j \<and> vs ! j = m')"
proof (induction vs arbitrary: i m k)
  case Nil then show ?case by simp
next
  case (Cons v vs)
  show ?case
  proof (cases "fge v m")
    case True
    with Cons.prems have "min_scan vs (Suc i) m k = (m', k')" by simp
    from Cons.IH [OF this] show ?thesis by auto
  next
    case False
    show ?thesis
    proof (cases "v = NaN")
      case True
      with False Cons.prems show ?thesis by auto
    next
      case nn: False
      with False Cons.prems have "min_scan vs (Suc i) v i = (m', k')" by simp
      from Cons.IH [OF this] show ?thesis by auto
    qed
  qed
qed

lemma min_scan_le:
  "min_scan vs i (Fin b) k = (m', k') \<Longrightarrow>
     m' = NaN \<or> (\<exists>r. m' = Fin r \<and> r \<le> b \<and> (\<forall>j < length vs. \<forall>a. vs ! j = Fin a \<longrightarrow> r \<le> a)
                      \<and> (\<forall>j < length vs. vs ! j \<noteq> NaN))"
proof (induction vs arbitrary: i b k)
  case Nil then show ?case by auto
next
  case (Cons v vs)
  show ?case
  proof (cases v)
    case NaN
    with Cons.prems show ?thesis by simp
  next
    case (Fin a)
    show ?thesis
    proof (cases "b \<le> a")
      case True
      with Fin Cons.prems have "min_scan vs (Suc i) (Fin b) k = (m', k')" by simp
      from Cons.IH [OF this] True Fin show ?thesis
        by (auto simp: nth_Cons split: nat.splits)
    next
      case False
      with Fin Cons.prems have "min_scan vs (Suc i) (Fin a) i = (m', k')" by simp
      from Cons.IH [OF this] False Fin show ?thesis
        by (auto simp: nth_Cons split: nat.splits)
    qed
  qed
qed

lemma min_row_index:
  assumes "row \<noteq> []"
  shows "snd (min_row row) < length row \<and> row ! snd (min_row row) = fst (min_row row)"
proof -
  obtain m' k' where r: "min_scan row 0 (hd row) 0 = (m', k')" by (cases "min_scan row 0 (hd row) 0")
  from min_scan_index [OF r]
  have "(m' = hd row \<and> k' = 0) \<or> (\<exists>j < length row. k' = j \<and> row ! j = m')" by simp
  then show ?thesis
    using assms unfolding min_row_def r by (auto simp: hd_conv_nth)
qed

lemma min_row_le:
  assumes "row \<noteq> []"
  shows "fst (min_row row) = NaN \<or>
         (\<exists>r. fst (min_row row) = Fin r \<and> (\<forall>j < length row. \<exists>a. row ! j = Fin a \<and> r \<le> a))"
proof (cases "hd row")
  case NaN
  with assms show ?thesis by (cases row) (auto simp: min_row_def)
next
  case (Fin b)
  obtain m' k' where r: "min_scan row 0 (Fin b) 0 = (m', k')" by (cases "min_scan row 0 (Fin b) 0")
  from min_scan_le [OF r] show ?thesis
    using Fin by (simp add: min_row_def r) (metis fval.exhaust)
qed

lemma min_row_beats:
  assumes "j < length row" and "beats_sentinel (row ! j)"
  shows "beats_sentinel (fst (min_row row))"
proof -
  have ne: "row \<noteq> []" using assms by auto
  from min_row_le [OF ne] show ?thesis
  proof
    assume "fst (min_row row) = NaN" then show ?thesis by (simp add: beats_sentinel_def)
  next
    assume "\<exists>r. fst (min_row row) = Fin r \<and> (\<forall>j < length row. \<exists>a. row ! j = Fin a \<and> r \<le> a)"
    then obtain r a where "fst (min_row row) = Fin r" "row ! j = Fin a" "r \<le> a"
      using assms(1) by blast
    with assms(2) show ?thesis by (simp add: beats_sentinel_def)
  qed
qed

lemma exclude_row_length: "length (exclude_row ids row) = length row"
  unfolding exclude_row_def by (induction ids arbitrary: row) auto

lemma exclude_row_nth:
  "k < length row \<Longrightarrow>
   exclude_row ids row ! k = (if k \<in> set ids then Fin sentinel else row ! k)"
  unfolding exclude_row_def
proof (induction ids arbitrary: row)
  case Nil then show ?case by simp
next
  case (Cons i ids)
  from Cons.IH [of "row[i := Fin sentinel]"] Cons.prems show ?case
    by (auto simp: nth_list_update)
qed

lemma norm_ids_set:
  "norm_ids n is = Inr ks \<Longrightarrow> set ks = {k. \<exists>i \<in> set is. py_index n i = Inr k}"
proof (induction "is" arbitrary: ks)
  case Nil then show ?case by simp
next
  case (Cons i "is")
  then show ?case by (auto split: sum.splits)
qed

lemma py_index_excluded:
  "k < V \<Longrightarrow> is_excluded V unused k \<Longrightarrow> \<exists>i \<in> set unused. py_index V i = Inr k"
  unfolding is_excluded_def
proof (elim disjE)
  assume "k < V" "int k \<in> set unused"
  then show ?thesis by (intro bexI [of _ "int k"]) (auto simp: py_index_def)
next
  assume "k < V" "int k - int V \<in> set unused"
  then show ?thesis by (intro bexI [of _ "int k - int V"]) (auto simp: py_index_def)
qed


lemma align_row_length: "length (align_row cands e g) = length cands"
  by (simp add: align_row_def)

lemma distances_row_length:
  assumes "distances x w g m = Inr (V, d0)" and "seq \<in> set d0" and "row \<in> set seq"
  shows "length row = V"
proof -
  consider (l2) "m = ''l2''" | (cos) "m \<noteq> ''l2''" "m = ''cos''"
    | (ga) "m \<noteq> ''l2''" "m \<noteq> ''cos''" "m = ''grad_align''" "g \<noteq> None"
    using assms(1) by (auto simp: distances_def split: if_splits)
  then show ?thesis
  proof cases
    case l2
    with assms show ?thesis by (auto simp: distances_def cdist_row_def split: if_splits)
  next
    case cos
    with assms show ?thesis by (auto simp: distances_def cos_row_def split: if_splits)
  next
    case ga
    with assms obtain cands where c: "align_cands x w = Inr cands" "V = length cands"
      and d0: "d0 = map2 (\<lambda>xs gs. map2 (align_row cands) xs gs) x (the g)"
      by (auto simp: distances_def split: if_splits sum.splits)
    from assms(2,3) d0 obtain xs gs e ge where "row = align_row cands e ge"
      by (auto simp: set_zip)
    then show ?thesis using c by (simp add: align_row_length)
  qed
qed

lemma get_closest_tokens_Inr:
  assumes "get_closest_tokens x u w g m = Inr (d, idx)"
  obtains V d0 ids where "distances x w g m = Inr (V, d0)" "norm_ids V u = Inr ids" "0 < V"
    "d = map (map (exclude_row ids)) d0" "idx = map (map (\<lambda>row. snd (min_row row))) d"
  using assms by (auto simp: get_closest_tokens_def Let_def split: sum.splits if_splits)

text \<open>
  Claim C2, as amended. At a position where some entry of the returned distance matrix
  beats the sentinel \<open>1e9\<close> (such an entry belongs to a token that is not excluded), the
  token index \<open>get_closest_tokens\<close> returns is not excluded, for every metric.
\<close>

theorem never_selects_excluded:
  assumes r: "get_closest_tokens x unused w g m = Inr (d, idx)"
    and b: "b < length d" and s: "s < length (d ! b)"
    and v: "v < length (d ! b ! s)" and beats: "beats_sentinel (d ! b ! s ! v)"
  shows "\<not> is_excluded (length (d ! b ! s)) unused (idx ! b ! s)"
proof
  assume ex: "is_excluded (length (d ! b ! s)) unused (idx ! b ! s)"
  from r obtain V d0 ids where dist: "distances x w g m = Inr (V, d0)"
    and ids: "norm_ids V unused = Inr ids" and V: "0 < V"
    and d: "d = map (map (exclude_row ids)) d0"
    and idx: "idx = map (map (\<lambda>row. snd (min_row row))) d"
    by (rule get_closest_tokens_Inr)
  define row0 where "row0 = d0 ! b ! s"
  define row where "row = d ! b ! s"
  have b0: "b < length d0" and s0: "s < length (d0 ! b)" using b s d by auto
  have row: "row = exclude_row ids row0" using b0 s0 d by (simp add: row_def row0_def)
  have "d0 ! b \<in> set d0" "row0 \<in> set (d0 ! b)" using b0 s0 by (auto simp: row0_def)
  then have len0: "length row0 = V" using distances_row_length [OF dist] by blast
  then have len: "length row = V" by (simp add: row exclude_row_length)
  have k: "idx ! b ! s = snd (min_row row)" using b s idx by (simp add: row_def)
  have ne: "row \<noteq> []" using len V by auto
  from min_row_index [OF ne] have kl: "snd (min_row row) < length row"
    and kv: "row ! snd (min_row row) = fst (min_row row)" by auto
  from ex have "is_excluded V unused (snd (min_row row))" using k len by (simp add: row_def)
  with py_index_excluded [of "snd (min_row row)" V unused] kl len
  have "snd (min_row row) \<in> set ids" using norm_ids_set [OF ids] by auto
  then have "row ! snd (min_row row) = Fin sentinel"
    using exclude_row_nth [of "snd (min_row row)" row0 ids] kl len len0 by (simp add: row)
  moreover have "beats_sentinel (fst (min_row row))"
    using min_row_beats [of v row] v beats by (simp add: row_def)
  ultimately show False using kv by (simp add: beats_sentinel_def)
qed

lemma norm_p2_single: "norm_p2 [a] = \<bar>a\<bar>"
  by (simp add: norm_p2_def sumsq_def)

text \<open>
  Token 0 is excluded and the only other token is at Euclidean distance \<open>2e9\<close>, above the
  sentinel: the excluded token 0 is selected.
\<close>

theorem excluded_token_selected:
  "get_closest_tokens [[[0]]] [0] [[0], [2000000000]] None ''l2''
     = Inr ([[[Fin 1000000000, Fin 2000000000]]], [[0]])"
  by (simp add: get_closest_tokens_def distances_def same_dim_def cdist_row_def norm_p2_single
      py_index_def exclude_row_def sentinel_def min_row_def)

text \<open>Token 0 is excluded and token 1 is at distance 1: token 1 is selected.\<close>

theorem never_selects_excluded_witness:
  "get_closest_tokens [[[0]]] [0] [[0], [1]] None ''l2'' = Inr ([[[Fin 1000000000, Fin 1]]], [[1]])
   \<and> \<not> is_excluded 2 [0] 1"
proof -
  have r: "get_closest_tokens [[[0]]] [0] [[0], [1]] None ''l2''
             = Inr ([[[Fin 1000000000, Fin 1]]], [[1]])"
    by (simp add: get_closest_tokens_def distances_def same_dim_def cdist_row_def norm_p2_single
        py_index_def exclude_row_def sentinel_def min_row_def)
  from never_selects_excluded [OF r, of 0 0 1] show ?thesis
    using r by (simp add: beats_sentinel_def sentinel_def numeral_2_eq_2)
qed

section \<open>Padding removal\<close>

lemma scan_back_none:
  "n \<le> length ids \<Longrightarrow> \<forall>j < n. ids ! j \<noteq> s \<Longrightarrow> scan_back s ids n = ids"
  by (induction n) auto

lemma scan_back_last:
  "i < n \<Longrightarrow> n \<le> length ids \<Longrightarrow> ids ! i = s \<Longrightarrow> \<forall>j. i < j \<and> j < n \<longrightarrow> ids ! j \<noteq> s \<Longrightarrow>
   scan_back s ids n = take (Suc i) ids"
proof (induction n)
  case 0 then show ?case by simp
next
  case (Suc n)
  show ?case
  proof (cases "i = n")
    case True with Suc.prems show ?thesis by simp
  next
    case False
    with Suc.prems have "i < n" "ids ! n \<noteq> s" by auto
    with Suc show ?thesis by simp
  qed
qed

lemma remove_padding_split:
  assumes "BERT_SEP_TOKEN c \<notin> set post"
  shows "remove_padding c tok (pre @ BERT_SEP_TOKEN c # post) = tok (pre @ [BERT_SEP_TOKEN c])"
proof -
  let ?ids = "pre @ BERT_SEP_TOKEN c # post"
  have "\<forall>j. length pre < j \<and> j < length ?ids \<longrightarrow> ?ids ! j \<noteq> BERT_SEP_TOKEN c"
  proof (intro allI impI)
    fix j assume j: "length pre < j \<and> j < length ?ids"
    then obtain k where k: "j = length pre + Suc k" by (metis less_imp_Suc_add add_Suc_right)
    then have "?ids ! j = post ! (j - Suc (length pre))"
      by (simp add: nth_append)
    moreover have "j - Suc (length pre) < length post" using j by auto
    ultimately show "?ids ! j \<noteq> BERT_SEP_TOKEN c" using assms by (metis nth_mem)
  qed
  then have "scan_back (BERT_SEP_TOKEN c) ?ids (length ?ids) = take (Suc (length pre)) ?ids"
    by (intro scan_back_last) auto
  then show ?thesis by (simp add: remove_padding_def)
qed

text \<open>
  Claim C8. \<open>remove_padding\<close> decodes the ids up to and including the last occurrence
  of the end token: an id sequence that splits into a prefix, the end token and a rest
  without the end token is decoded as the prefix followed by the end token. On
  \<open>[5, 7, END, 9, 9]\<close>, where \<open>END\<close> is an id other than 9, it returns the decoding of
  \<open>[5, 7, END]\<close>. When the end token does not occur the whole sequence is decoded.
\<close>

theorem remove_padding_truncates:
  "(BERT_SEP_TOKEN c \<notin> set post \<longrightarrow>
      remove_padding c tok (pre @ BERT_SEP_TOKEN c # post) = tok (pre @ [BERT_SEP_TOKEN c]))
   \<and> (BERT_SEP_TOKEN c \<noteq> 9 \<longrightarrow>
      remove_padding c tok [5, 7, BERT_SEP_TOKEN c, 9, 9] = tok [5, 7, BERT_SEP_TOKEN c])
   \<and> (BERT_SEP_TOKEN c \<notin> set ids \<longrightarrow> remove_padding c tok ids = tok ids)"
proof (intro conjI impI)
  assume "BERT_SEP_TOKEN c \<notin> set post"
  then show "remove_padding c tok (pre @ BERT_SEP_TOKEN c # post) = tok (pre @ [BERT_SEP_TOKEN c])"
    by (rule remove_padding_split)
next
  assume "BERT_SEP_TOKEN c \<noteq> 9"
  then show "remove_padding c tok [5, 7, BERT_SEP_TOKEN c, 9, 9] = tok [5, 7, BERT_SEP_TOKEN c]"
    using remove_padding_split [of c "[9, 9]" tok "[5, 7]"] by simp
next
  assume "BERT_SEP_TOKEN c \<notin> set ids"
  then have "scan_back (BERT_SEP_TOKEN c) ids (length ids) = ids"
    by (intro scan_back_none) (auto simp: in_set_conv_nth)
  then show "remove_padding c tok ids = tok ids" by (simp add: remove_padding_def)
qed

text \<open>
  The theorem with the end token 102 and a tokenizer that writes a dot for the end token
  and a letter for any other id.
\<close>

theorem remove_padding_truncates_witness:
  "remove_padding \<lparr>BERT_CLS_TOKEN = 101, BERT_SEP_TOKEN = 102, BERT_PAD_TOKEN = 0\<rparr>
       (map (\<lambda>i. if i = 102 then CHR ''.'' else CHR ''a'')) [5, 7, 102, 9, 9] = ''aa.''
   \<and> remove_padding \<lparr>BERT_CLS_TOKEN = 101, BERT_SEP_TOKEN = 102, BERT_PAD_TOKEN = 0\<rparr>
       (map (\<lambda>i. if i = 102 then CHR ''.'' else CHR ''a'')) [5, 102, 7, 102, 9] = ''a.a.''
   \<and> remove_padding \<lparr>BERT_CLS_TOKEN = 101, BERT_SEP_TOKEN = 102, BERT_PAD_TOKEN = 0\<rparr>
       (map (\<lambda>i. if i = 102 then CHR ''.'' else CHR ''a'')) [5, 7, 9] = ''aaa''"
  using remove_padding_truncates [of "\<lparr>BERT_CLS_TOKEN = 101, BERT_SEP_TOKEN = 102, BERT_PAD_TOKEN = 0\<rparr>"
      "[9]" "map (\<lambda>i. if i = 102 then CHR ''.'' else CHR ''a'')" "[5, 102, 7]" "[5, 7, 9]"]
  by simp


section \<open>Boundary fix-up\<close>

lemma map_err_all:
  "\<forall>x \<in> set xs. f x = Inr (g x) \<Longrightarrow> map_err f xs = Inr (map g xs)"
  by (induction xs) auto

lemma set_pos_first:
  "seq \<noteq> [] \<Longrightarrow> length (seq ! 0) = length v \<Longrightarrow> set_pos seq 0 v = Inr (seq[0 := v])"
  by (simp add: set_pos_def py_index_def bind_err_def fit_def)

lemma set_pos_last:
  "seq \<noteq> [] \<Longrightarrow> length (seq ! (length seq - 1)) = length v \<Longrightarrow>
   set_pos seq (- 1) v = Inr (seq[length seq - 1 := v])"
proof -
  assume a: "seq \<noteq> []" "length (seq ! (length seq - 1)) = length v"
  then have "py_index (length seq) (- 1) = Inr (length seq - 1)"
    by (cases seq) (auto simp: py_index_def)
  with a show ?thesis by (simp add: set_pos_def bind_err_def fit_def)
qed

text \<open>
  Claim C9. Without pad boundaries and on a batch of more than one sequence,
  \<open>fix_special_tokens\<close> returns the batch in which position 0 of every sequence holds
  the start embedding and nothing else has changed. (The start id indexes the vocabulary
  matrix, and the sequences are not empty and hold embeddings of the matrix's dimension;
  otherwise the framework raises.)
\<close>

theorem fix_special_tokens_batch:
  assumes "1 < length x"
    and "py_index (length w) (BERT_CLS_TOKEN c) = Inr kc"
    and "\<forall>seq \<in> set x. seq \<noteq> [] \<and> length (seq ! 0) = length (w ! kc)"
  shows "fix_special_tokens c x w None = Inr (map (\<lambda>seq. seq[0 := w ! kc]) x)"
proof -
  have "map_err (\<lambda>seq. set_pos seq 0 (w ! kc)) x = Inr (map (\<lambda>seq. seq[0 := w ! kc]) x)"
    using assms(3) by (intro map_err_all) (simp add: set_pos_first)
  then show ?thesis
    using assms(1,2) by (simp add: fix_special_tokens_def row_of_def bind_err_def)
qed

text \<open>A batch of two sequences of three positions.\<close>

theorem fix_special_tokens_batch_witness:
  "fix_special_tokens \<lparr>BERT_CLS_TOKEN = 0, BERT_SEP_TOKEN = 1, BERT_PAD_TOKEN = 2\<rparr>
     [[[1], [2], [3]], [[4], [5], [6]]] [[10], [20], [30]] None
   = Inr [[[10], [2], [3]], [[10], [5], [6]]]"
  using fix_special_tokens_batch [of "[[[1], [2], [3]], [[4], [5], [6]]]" "[[10], [20], [30]]"
      "\<lparr>BERT_CLS_TOKEN = 0, BERT_SEP_TOKEN = 1, BERT_PAD_TOKEN = 2\<rparr>" 0]
  by (simp add: py_index_def)

text \<open>
  Claim C4, as amended. Without pad boundaries and on a batch of exactly one sequence,
  \<open>fix_special_tokens\<close> sets the last position to the end embedding, sets the first
  position to the start embedding when it is not also the last one, and leaves every
  position in between unchanged.
\<close>

theorem fix_special_tokens_single:
  assumes "seq \<noteq> []"
    and "py_index (length w) (BERT_CLS_TOKEN c) = Inr kc"
    and "py_index (length w) (BERT_SEP_TOKEN c) = Inr ks"
    and "\<forall>e \<in> set seq. length e = length (w ! kc) \<and> length e = length (w ! ks)"
  shows "\<exists>y. fix_special_tokens c [seq] w None = Inr [y]
           \<and> length y = length seq
           \<and> y ! (length seq - 1) = w ! ks
           \<and> (1 < length seq \<longrightarrow> y ! 0 = w ! kc)
           \<and> (\<forall>i. 0 < i \<and> i < length seq - 1 \<longrightarrow> y ! i = seq ! i)"
proof -
  let ?s1 = "seq[0 := w ! kc]"
  let ?y = "?s1[length seq - 1 := w ! ks]"
  have l0: "length (seq ! 0) = length (w ! kc)" using assms(1,4) by (cases seq) auto
  have eq: "length (w ! kc) = length (w ! ks)" using assms(1,4) by (cases seq) auto
  have "\<forall>e \<in> set ?s1. length e = length (w ! ks)"
    using set_update_subset_insert [of seq 0 "w ! kc"] assms(4) eq by auto
  moreover have "?s1 ! (length ?s1 - 1) \<in> set ?s1" using assms(1) by simp
  ultimately have l1: "length (?s1 ! (length ?s1 - 1)) = length (w ! ks)" by blast
  have ne: "?s1 \<noteq> []" using assms(1) by simp
  have "fix_special_tokens c [seq] w None = Inr [?y]"
    using assms(1-3) set_pos_first [OF assms(1) l0] set_pos_last [OF ne l1]
    by (simp add: fix_special_tokens_def row_of_def bind_err_def)
  moreover have "length ?y = length seq" by simp
  moreover have "?y ! (length seq - 1) = w ! ks" using assms(1) by simp
  moreover have "1 < length seq \<longrightarrow> ?y ! 0 = w ! kc"
    using assms(1) by auto
  moreover have "\<forall>i. 0 < i \<and> i < length seq - 1 \<longrightarrow> ?y ! i = seq ! i" by auto
  ultimately show ?thesis by blast
qed

text \<open>One sequence of three positions.\<close>

theorem fix_special_tokens_single_witness:
  "\<exists>y. fix_special_tokens \<lparr>BERT_CLS_TOKEN = 0, BERT_SEP_TOKEN = 1, BERT_PAD_TOKEN = 2\<rparr>
          [[[1], [2], [3]]] [[10], [20], [30]] None = Inr [y]
       \<and> length y = 3 \<and> y ! 2 = [20] \<and> y ! 0 = [10] \<and> y ! 1 = [2]"
  using fix_special_tokens_single [of "[[1], [2], [3]]" "[[10], [20], [30]]"
      "\<lparr>BERT_CLS_TOKEN = 0, BERT_SEP_TOKEN = 1, BERT_PAD_TOKEN = 2\<rparr>" 0 1]
  by (auto simp: py_index_def numeral_3_eq_3 numeral_2_eq_2)

text \<open>
  On one sequence of three positions the first position, which is not the last, is
  overwritten by the start embedding.
\<close>

theorem fix_special_tokens_first_changed:
  "fix_special_tokens \<lparr>BERT_CLS_TOKEN = 0, BERT_SEP_TOKEN = 1, BERT_PAD_TOKEN = 2\<rparr>
     [[[1], [2], [3]]] [[10], [20], [30]] None
   = Inr [[[10], [2], [20]]]"
  by (simp add: fix_special_tokens_def row_of_def bind_err_def py_index_def set_pos_def fit_def)

section \<open>An embedding that is a vocabulary entry\<close>

lemma min_scan_stay:
  "\<forall>l < length vs. \<exists>r. vs ! l = Fin r \<and> a \<le> r \<Longrightarrow> min_scan vs i (Fin a) k = (Fin a, k)"
proof (induction vs arbitrary: i)
  case Nil then show ?case by simp
next
  case (Cons v vs)
  from Cons.prems obtain r where v: "v = Fin r" "a \<le> r" by fastforce
  have "\<forall>l < length vs. \<exists>r. vs ! l = Fin r \<and> a \<le> r" using Cons.prems by fastforce
  from Cons.IH [OF this] v show ?case by simp
qed

lemma min_scan_first:
  "j < length vs \<Longrightarrow> vs ! j = Fin a \<Longrightarrow> a < b \<Longrightarrow>
   \<forall>l < j. \<exists>r. vs ! l = Fin r \<and> a < r \<Longrightarrow>
   \<forall>l < length vs. \<exists>r. vs ! l = Fin r \<and> a \<le> r \<Longrightarrow>
   min_scan vs i (Fin b) k = (Fin a, i + j)"
proof (induction vs arbitrary: i j b k)
  case Nil then show ?case by simp
next
  case (Cons v vs)
  have rest: "\<forall>l < length vs. \<exists>r. vs ! l = Fin r \<and> a \<le> r" using Cons.prems(5) by fastforce
  show ?case
  proof (cases j)
    case 0
    with Cons.prems have v: "v = Fin a" by simp
    show ?thesis using v Cons.prems(3) min_scan_stay [OF rest, of "Suc i" i] 0 by simp
  next
    case (Suc j')
    from Cons.prems(4) Suc obtain r where v: "v = Fin r" "a < r" by fastforce
    have j': "j' < length vs" "vs ! j' = Fin a" using Cons.prems(1,2) Suc by auto
    have before: "\<forall>l < j'. \<exists>r. vs ! l = Fin r \<and> a < r" using Cons.prems(4) Suc by fastforce
    show ?thesis
    proof (cases "b \<le> r")
      case True
      with v Cons.IH [OF j' Cons.prems(3) before rest, of "Suc i" k] Suc show ?thesis by simp
    next
      case False
      with v Cons.IH [OF j' v(2) before rest, of "Suc i" i] Suc show ?thesis by simp
    qed
  qed
qed

lemma min_row_first:
  assumes "j < length row" "row ! j = Fin a"
    and "\<forall>l < j. \<exists>r. row ! l = Fin r \<and> a < r"
    and "\<forall>l < length row. \<exists>r. row ! l = Fin r \<and> a \<le> r"
  shows "min_row row = (Fin a, j)"
proof (cases row)
  case Nil with assms show ?thesis by simp
next
  case (Cons v vs)
  have rest: "\<forall>l < length vs. \<exists>r. vs ! l = Fin r \<and> a \<le> r" using assms(4) Cons by fastforce
  show ?thesis
  proof (cases j)
    case 0
    with assms Cons have "v = Fin a" by simp
    then show ?thesis using min_scan_stay [OF rest, of "Suc 0" 0] 0 Cons by (simp add: min_row_def)
  next
    case (Suc j')
    from assms(3) Suc Cons obtain r where v: "v = Fin r" "a < r" by fastforce
    have j': "j' < length vs" "vs ! j' = Fin a" using assms(1,2) Suc Cons by auto
    have before: "\<forall>l < j'. \<exists>r. vs ! l = Fin r \<and> a < r" using assms(3) Suc Cons by fastforce
    from min_scan_first [OF j' v(2) before rest, of "Suc 0" 0] v Suc Cons
    show ?thesis by (simp add: min_row_def)
  qed
qed

lemma norm_p2_nonneg: "0 \<le> norm_p2 a"
  by (simp add: norm_p2_def sumsq_nonneg)

lemma diff_zero_iff:
  "length e = length v \<Longrightarrow> (\<forall>x \<in> set (map2 (-) e v). x = (0::real)) \<longleftrightarrow> e = v"
  by (induction e v rule: list_induct2) auto

lemma norm_diff_self: "norm_p2 (map2 (-) e e) = 0"
  using diff_zero_iff [of e e] by (simp add: norm_p2_zero_iff)

lemma py_index_Inr:
  "py_index V i = Inr k \<Longrightarrow> k < V \<and> (i = int k \<or> i = int k - int V)"
  by (auto simp: py_index_def split: if_splits)

lemma ids_excluded:
  assumes "norm_ids V unused = Inr ids" "k \<in> set ids"
  shows "is_excluded V unused k"
proof -
  from norm_ids_set [OF assms(1)] assms(2) obtain i where "i \<in> set unused" "py_index V i = Inr k"
    by auto
  with py_index_Inr [of V i k] show ?thesis by (auto simp: is_excluded_def)
qed

lemma same_dimD:
  "same_dim x w \<Longrightarrow> b < length x \<Longrightarrow> s < length (x ! b) \<Longrightarrow> i < length w \<Longrightarrow>
   length (x ! b ! s) = length (w ! i)"
  by (simp add: same_dim_def list_all_length)


lemma dot_self: "dot a a = sumsq a"
  by (induction a) (auto simp: dot_def sumsq_def)

lemma norm_p2_square: "norm_p2 a * norm_p2 a = sumsq a"
  using sumsq_nonneg [of a] by (simp add: norm_p2_def)

lemma scaled_diff_sumsq:
  "length a = length b \<Longrightarrow>
   sumsq (map2 (\<lambda>x y. q * x - p * y) a b)
     = q * q * sumsq a + p * p * sumsq b - 2 * p * q * dot a b"
  by (induction a b rule: list_induct2) (auto simp: sumsq_def dot_def algebra_simps)

lemma cauchy_schwarz_gap:
  assumes "length a = length b"
  shows "sumsq (map2 (\<lambda>x y. norm_p2 b * x - norm_p2 a * y) a b)
           = 2 * (norm_p2 a * norm_p2 b) * (norm_p2 a * norm_p2 b - dot a b)"
proof -
  let ?p = "norm_p2 a" and ?q = "norm_p2 b"
  have "?q * ?q * sumsq a + ?p * ?p * sumsq b - 2 * ?p * ?q * dot a b
          = ?q * ?q * (?p * ?p) + ?p * ?p * (?q * ?q) - 2 * ?p * ?q * dot a b"
    by (simp only: norm_p2_square)
  also have "\<dots> = 2 * (?p * ?q) * (?p * ?q - dot a b)" by (simp add: algebra_simps)
  finally show ?thesis using scaled_diff_sumsq [OF assms, of ?q ?p] by simp
qed

lemma cauchy_schwarz:
  assumes "length a = length b"
  shows "dot a b \<le> norm_p2 a * norm_p2 b"
proof (cases "norm_p2 a * norm_p2 b = 0")
  case True
  then show ?thesis using dot_zero_norm [of a b] by auto
next
  case False
  then have pos: "0 < norm_p2 a * norm_p2 b"
    using norm_p2_nonneg [of a] norm_p2_nonneg [of b] by (simp add: less_eq_real_def)
  have "0 \<le> 2 * (norm_p2 a * norm_p2 b) * (norm_p2 a * norm_p2 b - dot a b)"
    using cauchy_schwarz_gap [OF assms] sumsq_nonneg by metis
  with pos show ?thesis by (simp add: zero_le_mult_iff)
qed

lemma cos_entry_ge:
  assumes "length e = length v" "norm_p2 e \<noteq> 0" "norm_p2 v \<noteq> 0"
  shows "\<exists>r. ratio (- dot e v) (norm_p2 e * norm_p2 v) = Fin r \<and> - 1 \<le> r"
proof -
  let ?n = "norm_p2 e * norm_p2 v"
  have pos: "0 < ?n"
    using assms(2,3) norm_p2_nonneg [of e] norm_p2_nonneg [of v] by (simp add: less_eq_real_def)
  have le: "dot e v \<le> ?n" by (rule cauchy_schwarz [OF assms(1)])
  have ge: "- 1 \<le> - dot e v / ?n" using le pos by (simp add: field_simps)
  show ?thesis using pos ge by (auto simp: ratio_def)
qed

lemma cos_entry_self:
  assumes "norm_p2 e \<noteq> 0"
  shows "ratio (- dot e e) (norm_p2 e * norm_p2 e) = Fin (- 1)"
proof -
  have "norm_p2 e * norm_p2 e = dot e e" by (simp add: norm_p2_square dot_self)
  moreover have "dot e e \<noteq> 0" using assms calculation by auto
  ultimately show ?thesis by (simp add: ratio_def)
qed

lemma norm_ids_ok:
  "\<forall>i \<in> set is. - int n \<le> i \<and> i < int n \<Longrightarrow> \<exists>ks. norm_ids n is = Inr ks"
proof (induction "is")
  case Nil then show ?case by simp
next
  case (Cons i "is")
  then obtain ks where "norm_ids n is = Inr ks" by auto
  moreover have "\<exists>k. py_index n i = Inr k" using Cons.prems by (auto simp: py_index_def)
  ultimately show ?case by auto
qed

lemma close_to_iff:
  "close_to tol v e \<longleftrightarrow> (\<exists>c r. v = Fin c \<and> e = Fin r \<and> \<bar>c - r\<bar> \<le> tol)"
  by (cases v; cases e) auto

text \<open>With the identity as rounding the function is \<open>get_closest_tokens\<close>.\<close>

lemma get_closest_tokens_fl_exact:
  "get_closest_tokens_fl (\<lambda>d. d) x u w g m = get_closest_tokens x u w g m"
  by (simp add: get_closest_tokens_fl_def get_closest_tokens_def select_tokens_def
      split: sum.splits prod.splits)

lemma select_tokens_Inr:
  assumes "select_tokens V u dm = Inr (d, idx)"
  obtains ids where "norm_ids V u = Inr ids" "0 < V"
    "d = map (map (exclude_row ids)) dm" "idx = map (map (\<lambda>row. snd (min_row row))) d"
  using assms by (auto simp: select_tokens_def Let_def split: sum.splits if_splits)

lemma select_close:
  assumes sel: "select_tokens V unused dm = Inr (d, idx)"
    and ap: "approximates tol V unused dm b s exact"
    and j: "j < V" and nex: "\<not> is_excluded V unused j"
    and ej: "exact ! j = Fin m0"
    and lower: "\<forall>i < V. \<forall>r. exact ! i = Fin r \<longrightarrow> m0 \<le> r"
    and tol: "0 \<le> tol" and m0: "m0 \<le> sentinel"
  shows "\<exists>c c'. d ! b ! s ! j = Fin c \<and> \<bar>c - m0\<bar> \<le> tol
           \<and> d ! b ! s ! (idx ! b ! s) = Fin c' \<and> \<bar>c' - m0\<bar> \<le> tol
           \<and> (m0 + tol < sentinel
               \<and> (\<forall>i < V. i \<noteq> j \<and> \<not> is_excluded V unused i \<longrightarrow>
                     (\<exists>r. exact ! i = Fin r \<and> m0 + 2 * tol < r))
               \<longrightarrow> idx ! b ! s = j)"
proof -
  from sel obtain ids where ids: "norm_ids V unused = Inr ids" and V: "0 < V"
    and d: "d = map (map (exclude_row ids)) dm"
    and idx: "idx = map (map (\<lambda>row. snd (min_row row))) d"
    by (rule select_tokens_Inr)
  from ap have b: "b < length dm" and s: "s < length (dm ! b)" and len0: "length (dm ! b ! s) = V"
    and close: "\<And>i. i < V \<Longrightarrow> \<not> is_excluded V unused i \<Longrightarrow>
                  \<exists>c r. dm ! b ! s ! i = Fin c \<and> exact ! i = Fin r \<and> \<bar>c - r\<bar> \<le> tol"
    by (auto simp: approximates_def close_to_iff)
  define row0 where "row0 = dm ! b ! s"
  define row where "row = exclude_row ids row0"
  have drow: "d ! b ! s = row" using b s d by (simp add: row_def row0_def)
  have irow: "idx ! b ! s = snd (min_row row)" using b s idx d drow by simp
  have len: "length row = V" by (simp add: row_def exclude_row_length row0_def len0)
  have mem: "i \<in> set ids \<longleftrightarrow> is_excluded V unused i" if "i < V" for i
    using ids_excluded [OF ids, of i] py_index_excluded [of i V unused] norm_ids_set [OF ids] that
    by auto
  have excl: "row ! i = Fin sentinel" if "i < V" "is_excluded V unused i" for i
    using exclude_row_nth [of i row0 ids] that mem [of i] len0 by (simp add: row_def row0_def)
  have keep: "\<exists>c r. row ! i = Fin c \<and> exact ! i = Fin r \<and> \<bar>c - r\<bar> \<le> tol \<and> m0 \<le> r"
    if "i < V" "\<not> is_excluded V unused i" for i
  proof -
    from close [OF that] obtain c r where
      cr: "dm ! b ! s ! i = Fin c" "exact ! i = Fin r" "\<bar>c - r\<bar> \<le> tol" by blast
    moreover have "row ! i = dm ! b ! s ! i"
      using exclude_row_nth [of i row0 ids] that mem [of i] len0 by (simp add: row_def row0_def)
    moreover have "m0 \<le> r" using lower that(1) cr(2) by blast
    ultimately show ?thesis by auto
  qed
  have fin: "\<exists>c. row ! i = Fin c \<and> m0 - tol \<le> c" if "i < V" for i
  proof (cases "is_excluded V unused i")
    case True
    then show ?thesis using excl [OF that] m0 tol by simp
  next
    case False
    from keep [OF that False] show ?thesis by (auto simp: abs_le_iff)
  qed
  from keep [OF j nex] ej obtain c where c: "row ! j = Fin c" "\<bar>c - m0\<bar> \<le> tol" by auto
  have ne: "row \<noteq> []" using len V by auto
  define k where "k = snd (min_row row)"
  from min_row_index [OF ne] have kl: "k < V" and kv: "row ! k = fst (min_row row)"
    using len by (auto simp: k_def)
  from fin [OF kl] obtain c' where c': "row ! k = Fin c'" "m0 - tol \<le> c'" by blast
  from min_row_le [OF ne] kv c'(1) have "\<forall>i < length row. \<exists>a. row ! i = Fin a \<and> c' \<le> a" by auto
  with j len c(1) have "c' \<le> c" by auto
  with c(2) c'(2) have c'b: "\<bar>c' - m0\<bar> \<le> tol" by (simp add: abs_le_iff)
  have sel_j: "k = j"
    if margin: "m0 + tol < sentinel"
       "\<forall>i < V. i \<noteq> j \<and> \<not> is_excluded V unused i \<longrightarrow> (\<exists>r. exact ! i = Fin r \<and> m0 + 2 * tol < r)"
  proof -
    have cs: "c \<le> m0 + tol" using c(2) by (simp add: abs_le_iff)
    have others: "\<exists>r. row ! i = Fin r \<and> c < r" if i: "i < V" "i \<noteq> j" for i
    proof (cases "is_excluded V unused i")
      case True
      then show ?thesis using excl [OF i(1)] margin(1) cs by simp
    next
      case False
      from keep [OF i(1) False] obtain ci r where
        ci: "row ! i = Fin ci" "exact ! i = Fin r" "\<bar>ci - r\<bar> \<le> tol" by blast
      from margin(2) i False ci(2) have "m0 + 2 * tol < r" by auto
      with ci(3) cs have "c < ci" by (simp add: abs_le_iff)
      with ci(1) show ?thesis by simp
    qed
    have "min_row row = (Fin c, j)"
    proof (rule min_row_first)
      show "j < length row" using j len by simp
      show "row ! j = Fin c" by (rule c(1))
      show "\<forall>l < j. \<exists>r. row ! l = Fin r \<and> c < r" using others j by auto
      show "\<forall>l < length row. \<exists>r. row ! l = Fin r \<and> c \<le> r"
        using others c(1) len by (metis less_eq_real_def)
    qed
    then show ?thesis by (simp add: k_def)
  qed
  show ?thesis
    using c c'(1) c'b sel_j drow irow by (auto simp: k_def)
qed

lemma select_tokens_returns:
  assumes "\<forall>i \<in> set unused. - int V \<le> i \<and> i < int V" and "0 < V"
  shows "\<exists>d idx. select_tokens V unused dm = Inr (d, idx)"
proof -
  from norm_ids_ok [OF assms(1)] obtain ks where "norm_ids V unused = Inr ks" by blast
  then show ?thesis using assms(2) by (simp add: select_tokens_def Let_def)
qed

lemma l2_close_match:
  assumes sd: "same_dim x w"
    and rng: "\<forall>i \<in> set unused. - int (length w) \<le> i \<and> i < int (length w)"
    and j: "j < length w" and e: "x ! b ! s = w ! j"
    and nex: "\<not> is_excluded (length w) unused j"
    and tol: "0 \<le> tol"
    and ap: "approximates tol (length w) unused (rnd (map (map (cdist_row w)) x)) b s
               (cdist_row w (x ! b ! s))"
  shows "\<exists>d idx c c'. get_closest_tokens_fl rnd x unused w g ''l2'' = Inr (d, idx)
           \<and> d ! b ! s ! j = Fin c \<and> \<bar>c\<bar> \<le> tol
           \<and> d ! b ! s ! (idx ! b ! s) = Fin c' \<and> \<bar>c'\<bar> \<le> tol
           \<and> (tol < sentinel
               \<and> (\<forall>i < length w. i \<noteq> j \<and> \<not> is_excluded (length w) unused i \<longrightarrow>
                     2 * tol < norm_p2 (map2 (-) (x ! b ! s) (w ! i)))
               \<longrightarrow> idx ! b ! s = j)"
proof -
  let ?dm = "rnd (map (map (cdist_row w)) x)"
  let ?exact = "cdist_row w (x ! b ! s)"
  have V: "0 < length w" using j by auto
  from select_tokens_returns [OF rng V, of ?dm]
  obtain d idx where sel: "select_tokens (length w) unused ?dm = Inr (d, idx)" by blast
  have ret: "get_closest_tokens_fl rnd x unused w g ''l2'' = Inr (d, idx)"
    using sd sel by (simp add: get_closest_tokens_fl_def distances_def)
  have ej: "?exact ! j = Fin 0" using j e by (simp add: cdist_row_def norm_diff_self)
  have lower: "\<forall>i < length w. \<forall>r. ?exact ! i = Fin r \<longrightarrow> 0 \<le> r"
    by (auto simp: cdist_row_def norm_p2_nonneg)
  have s0: "(0::real) \<le> sentinel" by (simp add: sentinel_def)
  from select_close [OF sel ap j nex ej lower tol s0]
  obtain c c' where r: "d ! b ! s ! j = Fin c" "\<bar>c\<bar> \<le> tol"
    "d ! b ! s ! (idx ! b ! s) = Fin c'" "\<bar>c'\<bar> \<le> tol"
    "tol < sentinel \<and> (\<forall>i < length w. i \<noteq> j \<and> \<not> is_excluded (length w) unused i \<longrightarrow>
        (\<exists>r. ?exact ! i = Fin r \<and> 2 * tol < r)) \<longrightarrow> idx ! b ! s = j"
    by auto
  have "idx ! b ! s = j"
    if "tol < sentinel"
      "\<forall>i < length w. i \<noteq> j \<and> \<not> is_excluded (length w) unused i \<longrightarrow>
         2 * tol < norm_p2 (map2 (-) (x ! b ! s) (w ! i))"
  proof -
    have "\<forall>i < length w. i \<noteq> j \<and> \<not> is_excluded (length w) unused i \<longrightarrow>
            (\<exists>r. ?exact ! i = Fin r \<and> 2 * tol < r)"
      using that(2) by (simp add: cdist_row_def)
    with r(5) that(1) show ?thesis by blast
  qed
  with ret r(1-4) show ?thesis by blast
qed

lemma ratio_Fin: "ratio a (p * q) = Fin r \<Longrightarrow> p \<noteq> 0 \<and> q \<noteq> 0"
  by (auto simp: ratio_def split: if_splits)

lemma margin_quotient:
  fixes a n t :: real
  assumes "0 < n" and "a < (1 - 2 * t) * n"
  shows "- 1 + 2 * t < - a / n"
proof -
  have "a / n < 1 - 2 * t" using assms by (simp add: pos_divide_less_eq)
  then show ?thesis by simp
qed

lemma cos_close_match:
  assumes sd: "same_dim x w"
    and rng: "\<forall>i \<in> set unused. - int (length w) \<le> i \<and> i < int (length w)"
    and b: "b < length x" and s: "s < length (x ! b)"
    and j: "j < length w" and e: "x ! b ! s = w ! j"
    and nex: "\<not> is_excluded (length w) unused j"
    and tol: "0 \<le> tol"
    and ap: "approximates tol (length w) unused (rnd (map (map (cos_row w)) x)) b s
               (cos_row w (x ! b ! s))"
  shows "\<exists>d idx c c'. get_closest_tokens_fl rnd x unused w g ''cos'' = Inr (d, idx)
           \<and> d ! b ! s ! j = Fin c \<and> \<bar>c + 1\<bar> \<le> tol
           \<and> d ! b ! s ! (idx ! b ! s) = Fin c' \<and> \<bar>c' + 1\<bar> \<le> tol
           \<and> (tol < sentinel
               \<and> (\<forall>i < length w. i \<noteq> j \<and> \<not> is_excluded (length w) unused i \<longrightarrow>
                     dot (x ! b ! s) (w ! i)
                       < (1 - 2 * tol) * (norm_p2 (x ! b ! s) * norm_p2 (w ! i)))
               \<longrightarrow> idx ! b ! s = j)"
proof -
  let ?dm = "rnd (map (map (cos_row w)) x)"
  let ?e = "x ! b ! s"
  let ?exact = "cos_row w ?e"
  have V: "0 < length w" using j by auto
  from select_tokens_returns [OF rng V, of ?dm]
  obtain d idx where sel: "select_tokens (length w) unused ?dm = Inr (d, idx)" by blast
  have ret: "get_closest_tokens_fl rnd x unused w g ''cos'' = Inr (d, idx)"
    using sd sel by (simp add: get_closest_tokens_fl_def distances_def)
  have entry: "?exact ! i = ratio (- dot ?e (w ! i)) (norm_p2 ?e * norm_p2 (w ! i))"
    if "i < length w" for i using that by (simp add: cos_row_def)
  from ap j nex obtain rj where "?exact ! j = Fin rj" by (auto simp: approximates_def close_to_iff)
  with entry [OF j] have nzj: "norm_p2 ?e \<noteq> 0" using ratio_Fin by metis
  have ej: "?exact ! j = Fin (- 1)" using entry [OF j] e cos_entry_self nzj by simp
  have lower: "\<forall>i < length w. \<forall>r. ?exact ! i = Fin r \<longrightarrow> - 1 \<le> r"
  proof (intro allI impI)
    fix i r assume i: "i < length w" and r: "?exact ! i = Fin r"
    from r entry [OF i] ratio_Fin have nzi: "norm_p2 (w ! i) \<noteq> 0" by metis
    have ll: "length ?e = length (w ! i)" by (rule same_dimD [OF sd b s i])
    from cos_entry_ge [OF ll nzj nzi] r entry [OF i] show "- 1 \<le> r" by auto
  qed
  have s0: "(- 1::real) \<le> sentinel" by (simp add: sentinel_def)
  from select_close [OF sel ap j nex ej lower tol s0]
  obtain c c' where r: "d ! b ! s ! j = Fin c" "\<bar>c + 1\<bar> \<le> tol"
    "d ! b ! s ! (idx ! b ! s) = Fin c'" "\<bar>c' + 1\<bar> \<le> tol"
    "- 1 + tol < sentinel \<and> (\<forall>i < length w. i \<noteq> j \<and> \<not> is_excluded (length w) unused i \<longrightarrow>
        (\<exists>r. ?exact ! i = Fin r \<and> - 1 + 2 * tol < r)) \<longrightarrow> idx ! b ! s = j"
    by auto
  have "idx ! b ! s = j"
    if "tol < sentinel"
      "\<forall>i < length w. i \<noteq> j \<and> \<not> is_excluded (length w) unused i \<longrightarrow>
         dot ?e (w ! i) < (1 - 2 * tol) * (norm_p2 ?e * norm_p2 (w ! i))"
  proof -
    have "\<exists>r. ?exact ! i = Fin r \<and> - 1 + 2 * tol < r"
      if i: "i < length w" "i \<noteq> j" "\<not> is_excluded (length w) unused i" for i
    proof -
      from ap i obtain ri where ri: "?exact ! i = Fin ri" by (auto simp: approximates_def close_to_iff)
      with entry [OF i(1)] ratio_Fin have nzi: "norm_p2 (w ! i) \<noteq> 0" by metis
      have pos: "0 < norm_p2 ?e * norm_p2 (w ! i)"
        using nzj nzi norm_p2_nonneg [of ?e] norm_p2_nonneg [of "w ! i"]
        by (simp add: less_eq_real_def)
      have "dot ?e (w ! i) < (1 - 2 * tol) * (norm_p2 ?e * norm_p2 (w ! i))"
        using \<open>\<forall>i < length w. i \<noteq> j \<and> \<not> is_excluded (length w) unused i \<longrightarrow>
           dot ?e (w ! i) < (1 - 2 * tol) * (norm_p2 ?e * norm_p2 (w ! i))\<close> i by blast
      then have "- 1 + 2 * tol < - dot ?e (w ! i) / (norm_p2 ?e * norm_p2 (w ! i))"
        using pos by (intro margin_quotient)
      then show ?thesis using entry [OF i(1)] nzj nzi by (simp add: ratio_def)
    qed
    moreover have "- 1 + tol < sentinel" using that(1) by simp
    ultimately show ?thesis using r(5) by blast
  qed
  with ret r(1-4) show ?thesis by blast
qed

text \<open>
  Claim C7, as amended. Let the input embedding at a position be identical to the
  vocabulary entry \<open>j\<close>, which is not excluded, and let the distances the framework
  computes at that position for the tokens that are not excluded be finite and within
  \<open>tol\<close> of the exact ones (under \<open>cos\<close> the exact distance to or from a zero vector
  is \<open>NaN\<close>, so this excludes zero vectors). Under \<open>l2\<close> the distance recorded for \<open>j\<close> and the one
  recorded for the selected token are within \<open>tol\<close> of 0. Under \<open>cos\<close> they are within
  \<open>tol\<close> of \<open>-1\<close>, the negated cosine similarity of a vector with itself. Under
  either metric \<open>j\<close> is the selected token when \<open>tol\<close> is below the sentinel and the
  exact distance of every other token that is not excluded exceeds the one of \<open>j\<close> by
  more than \<open>2 * tol\<close>: under \<open>l2\<close> its Euclidean distance to the embedding is above
  \<open>2 * tol\<close>, under \<open>cos\<close> its cosine similarity to the embedding is below
  \<open>1 - 2 * tol\<close>.
\<close>

theorem exact_match:
  assumes sd: "same_dim x w"
    and rng: "\<forall>i \<in> set unused. - int (length w) \<le> i \<and> i < int (length w)"
    and b: "b < length x" and s: "s < length (x ! b)"
    and j: "j < length w" and e: "x ! b ! s = w ! j"
    and nex: "\<not> is_excluded (length w) unused j"
    and tol: "0 \<le> tol"
  shows
    "(approximates tol (length w) unused (rnd (map (map (cdist_row w)) x)) b s
        (cdist_row w (x ! b ! s)) \<longrightarrow>
      (\<exists>d idx c c'. get_closest_tokens_fl rnd x unused w g ''l2'' = Inr (d, idx)
         \<and> d ! b ! s ! j = Fin c \<and> \<bar>c\<bar> \<le> tol
         \<and> d ! b ! s ! (idx ! b ! s) = Fin c' \<and> \<bar>c'\<bar> \<le> tol
         \<and> (tol < sentinel
             \<and> (\<forall>i < length w. i \<noteq> j \<and> \<not> is_excluded (length w) unused i \<longrightarrow>
                   2 * tol < norm_p2 (map2 (-) (x ! b ! s) (w ! i)))
             \<longrightarrow> idx ! b ! s = j)))
   \<and> (approximates tol (length w) unused (rnd (map (map (cos_row w)) x)) b s
        (cos_row w (x ! b ! s)) \<longrightarrow>
      (\<exists>d idx c c'. get_closest_tokens_fl rnd x unused w g ''cos'' = Inr (d, idx)
         \<and> d ! b ! s ! j = Fin c \<and> \<bar>c + 1\<bar> \<le> tol
         \<and> d ! b ! s ! (idx ! b ! s) = Fin c' \<and> \<bar>c' + 1\<bar> \<le> tol
         \<and> (tol < sentinel
             \<and> (\<forall>i < length w. i \<noteq> j \<and> \<not> is_excluded (length w) unused i \<longrightarrow>
                   dot (x ! b ! s) (w ! i)
                     < (1 - 2 * tol) * (norm_p2 (x ! b ! s) * norm_p2 (w ! i)))
             \<longrightarrow> idx ! b ! s = j)))"
  using l2_close_match [OF sd rng j e nex tol, where rnd = rnd and g = g]
    cos_close_match [OF sd rng b s j e nex tol, where rnd = rnd and g = g]
  by blast

lemma norm_p2_units: "norm_p2 [1, 0] = 1" "norm_p2 [0, 1] = 1" "norm_p2 [2, 0] = 2"
  by (simp_all add: norm_p2_def sumsq_def)

text \<open>
  The embedding \<open>[1, 0]\<close> is identical to vocabulary entry 1 and to no other. Under
  \<open>cos\<close> the recorded distances are \<open>-1\<close>, not 0, and entry 0, which is parallel to
  the embedding, is selected. The values of this computation (the products and sums of 0,
  1 and 2, the square roots of 1 and 4, and the quotients \<open>-2 / 2\<close> and \<open>-1 / 1\<close>) are
  the same in IEEE arithmetic.
\<close>

theorem cos_selects_parallel_token:
  "get_closest_tokens [[[1, 0]]] [] [[2, 0], [1, 0]] None ''cos''
     = Inr ([[[Fin (- 1), Fin (- 1)]]], [[0]])"
  by (simp add: get_closest_tokens_def distances_def same_dim_def cos_row_def norm_p2_units
      dot_def ratio_def exclude_row_def min_row_def)

lemma norm_p2_pairs:
  "norm_p2 [1, - 1] = sqrt 2" "norm_p2 [0, 0] = 0"
  by (simp_all add: norm_p2_def sumsq_def)

lemma small_less_sqrt2: "1 / 500 < sqrt 2"
  by (rule real_less_rsqrt) (simp add: power2_eq_square)

text \<open>
  The embedding \<open>[1, 0]\<close>, the vocabulary \<open>[0, 1]\<close>, \<open>[1, 0]\<close>, and a rounding that
  adds \<open>1/1000\<close> to every distance, with the tolerance \<open>1/1000\<close>.
\<close>

theorem exact_match_witness:
  "(\<exists>d idx c c'.
      get_closest_tokens_fl (map (map (map (\<lambda>v. fadd v (Fin (1 / 1000))))))
        [[[1, 0]]] [] [[0, 1], [1, 0]] None ''l2'' = Inr (d, idx)
      \<and> d ! 0 ! 0 ! 1 = Fin c \<and> \<bar>c\<bar> \<le> 1 / 1000
      \<and> d ! 0 ! 0 ! (idx ! 0 ! 0) = Fin c' \<and> \<bar>c'\<bar> \<le> 1 / 1000 \<and> idx ! 0 ! 0 = 1)
   \<and> (\<exists>d idx c c'.
      get_closest_tokens_fl (map (map (map (\<lambda>v. fadd v (Fin (1 / 1000))))))
        [[[1, 0]]] [] [[0, 1], [1, 0]] None ''cos'' = Inr (d, idx)
      \<and> d ! 0 ! 0 ! 1 = Fin c \<and> \<bar>c + 1\<bar> \<le> 1 / 1000
      \<and> d ! 0 ! 0 ! (idx ! 0 ! 0) = Fin c' \<and> \<bar>c' + 1\<bar> \<le> 1 / 1000 \<and> idx ! 0 ! 0 = 1)"
proof -
  let ?rnd = "map (map (map (\<lambda>v. fadd v (Fin (1 / 1000)))))"
  let ?x = "[[[1, 0 :: real]]]" and ?w = "[[0, 1], [1, 0 :: real]]"
  have sd: "same_dim ?x ?w" by (simp add: same_dim_def)
  have rng: "\<forall>i \<in> set []. - int (length ?w) \<le> i \<and> i < int (length ?w)" by simp
  have b: "0 < length ?x" and s: "0 < length (?x ! 0)" and j: "1 < length ?w"
    and e: "?x ! 0 ! 0 = ?w ! 1" by simp_all
  have nex: "\<not> is_excluded (length ?w) [] 1" by (simp add: is_excluded_def)
  have tol: "(0::real) \<le> 1 / 1000" by simp
  have ap1: "approximates (1 / 1000) (length ?w) [] (?rnd (map (map (cdist_row ?w)) ?x)) 0 0
               (cdist_row ?w (?x ! 0 ! 0))"
    by (simp add: approximates_def cdist_row_def norm_p2_pairs less_Suc_eq numeral_2_eq_2)
  have m1: "1 / 1000 < sentinel
      \<and> (\<forall>i < length ?w. i \<noteq> 1 \<and> \<not> is_excluded (length ?w) [] i \<longrightarrow>
            2 * (1 / 1000) < norm_p2 (map2 (-) (?x ! 0 ! 0) (?w ! i)))"
    using small_less_sqrt2
    by (simp add: sentinel_def norm_p2_pairs less_Suc_eq numeral_2_eq_2)
  have ap2: "approximates (1 / 1000) (length ?w) [] (?rnd (map (map (cos_row ?w)) ?x)) 0 0
               (cos_row ?w (?x ! 0 ! 0))"
    by (simp add: approximates_def cos_row_def norm_p2_units dot_def ratio_def
        less_Suc_eq numeral_2_eq_2)
  have m2: "1 / 1000 < sentinel
      \<and> (\<forall>i < length ?w. i \<noteq> 1 \<and> \<not> is_excluded (length ?w) [] i \<longrightarrow>
            dot (?x ! 0 ! 0) (?w ! i)
              < (1 - 2 * (1 / 1000)) * (norm_p2 (?x ! 0 ! 0) * norm_p2 (?w ! i)))"
    by (simp add: sentinel_def norm_p2_units dot_def less_Suc_eq numeral_2_eq_2)
  from exact_match [OF sd rng b s j e nex tol, where rnd = ?rnd and g = None] ap1 m1 ap2 m2
  show ?thesis by blast
qed

text \<open>
  Without the margin another token can be selected. The vocabulary entry
  \<open>[1, 1 / 2 ^ 20]\<close> is not parallel to the embedding \<open>[1, 0]\<close>, and its exact distance is
  above \<open>-1\<close>; when the run rounds it to \<open>-1\<close> the two entries tie and the earlier one
  is selected.
\<close>

lemma rounded_tie_selects_earlier:
  "get_closest_tokens_fl (\<lambda>d. [[[Fin (- 1), Fin (- 1)]]])
     [[[1, 0]]] [] [[1, 1 / 2 ^ 20], [1, 0]] None ''cos''
   = Inr ([[[Fin (- 1), Fin (- 1)]]], [[0]])"
  by (simp add: get_closest_tokens_fl_def distances_def same_dim_def select_tokens_def
      exclude_row_def min_row_def)

section \<open>The store is only extended\<close>

lemma get_closest_tokens_heap_prefix:
  "take (length h) (fst (get_closest_tokens_heap h ax u aw ag m)) = h"
  by (auto simp: get_closest_tokens_heap_def alloc_def write_obj_def Let_def
      split: obj.splits sum.splits prod.splits)

text \<open>
  Claim C10. A call of \<open>get_closest_tokens\<close>, returning or raising, leaves every tensor
  that existed before the call as it was, in particular \<open>inputs_embeds\<close>,
  \<open>embeddings_weight\<close> and \<open>grads\<close>: the only write goes to the clone of the distance
  matrix.
\<close>

theorem get_closest_tokens_frame:
  "length h \<le> length (fst (get_closest_tokens_heap h ax u aw ag m))
   \<and> (\<forall>a < length h. fst (get_closest_tokens_heap h ax u aw ag m) ! a = h ! a)"
proof -
  let ?h' = "fst (get_closest_tokens_heap h ax u aw ag m)"
  have p: "take (length h) ?h' = h" by (rule get_closest_tokens_heap_prefix)
  then have l: "length h \<le> length ?h'" by (metis length_take min.cobounded2 min.commute)
  moreover have "\<forall>a < length h. ?h' ! a = h ! a"
    using p by (metis nth_take)
  ultimately show ?thesis by blast
qed

text \<open>
  The call on the store computes what \<open>get_closest_tokens\<close> computes: it raises the same
  exception, or returns the addresses of the same distance matrix and token indices.
\<close>

lemma get_closest_tokens_heap_result:
  assumes "ax < length h" "aw < length h" "h ! ax = Real3 x" "h ! aw = Real2 w"
    and "load_grads h ag = Inr g"
    and "get_closest_tokens_heap h ax u aw ag m = (h', r)"
  shows "case r of
           Inl e \<Rightarrow> get_closest_tokens x u w g m = Inl e
         | Inr (ad, ai) \<Rightarrow> \<exists>d idx. get_closest_tokens x u w g m = Inr (d, idx)
                            \<and> h' ! ad = Dist3 d \<and> h' ! ai = Ind2 idx"
  using assms
  by (auto simp: get_closest_tokens_heap_def get_closest_tokens_def alloc_def write_obj_def
      Let_def nth_append split: sum.splits prod.splits if_splits)

text \<open>A store of an embedding tensor and a vocabulary matrix, after a call with metric \<open>l2\<close>.\<close>

theorem get_closest_tokens_frame_witness:
  "fst (get_closest_tokens_heap [Real3 [[[0]]], Real2 [[0], [1]]] 0 [0] 1 None ''l2'') ! 0 = Real3 [[[0]]]
   \<and> fst (get_closest_tokens_heap [Real3 [[[0]]], Real2 [[0], [1]]] 0 [0] 1 None ''l2'') ! 1 = Real2 [[0], [1]]"
  using get_closest_tokens_frame [of "[Real3 [[[0]]], Real2 [[0], [1]]]" 0 "[0]" 1 None "''l2''"]
  by (simp add: numeral_2_eq_2 less_Suc_eq)

end
